theory Spec2Isabelle
  imports Complex_Main "HOL-Library.Multiset"
begin

section \<open>Data model of the news service\<close>

text \<open>
  A JavaScript string is a sequence of UTF-16 code units; \<open>length\<close>, \<open>substring\<close> and
  \<open>includes\<close> of the source count code units. A code unit is modelled as a natural
  number, so the Korean tag literals of the source are written by their code units.
\<close>

type_synonym jsstring = "nat list"

definition str :: "string \<Rightarrow> jsstring" where
  "str s = map of_char s"

text \<open>
  The fields of an article come from provider payloads: each one is a string, \<open>null\<close> or
  missing (\<open>undefined\<close>).
\<close>

datatype jsval = Undefined | Null | Str jsstring

text \<open>JavaScript truthiness, as used by \<open>article.title && article.url\<close>.\<close>

fun truthy :: "jsval \<Rightarrow> bool" where
  "truthy (Str s) = (s \<noteq> [])"
| "truthy Undefined = False"
| "truthy Null = False"

text \<open>String conversion, as done by \<open>article.title + ' ' + article.description\<close>.\<close>

fun toString :: "jsval \<Rightarrow> jsstring" where
  "toString (Str s) = s"
| "toString Undefined = str ''undefined''"
| "toString Null = str ''null''"

text \<open>
  What the source can throw: a TypeError (a method call on \<open>null\<close> or \<open>undefined\<close>) and
  the failure of a request to a provider (timeout, status, malformed payload).
\<close>

datatype error = TypeError | RequestFailed

record public_metrics =
  retweet_count :: int
  like_count :: int

text \<open>
  The article as the adapters build it. \<open>publishedAt\<close> holds the time value of
  \<open>new Date(article.publishedAt)\<close> in milliseconds, \<open>None\<close> when the date does not parse
  (the time value is NaN). The fields \<open>urlToImage\<close>, \<open>content\<close> and \<open>language\<close> are read by
  no function modelled here and are left out.
\<close>

record article =
  title :: jsval
  description :: jsval
  url :: jsval
  publishedAt :: "int option"
  source :: jsval
  apiSource :: jsval
  metrics :: "public_metrics option"

section \<open>removeDuplicates\<close>

text \<open>
  \<^verbatim>\<open>
  removeDuplicates(articles) {
    const seen = new Set();
    return articles.filter(article => {
      const key = article.title.toLowerCase().substring(0, 50);
      if (seen.has(key)) return false;
      seen.add(key);
      return true;
    });
  }
  \<close>
  \<open>toLowerCase\<close> is the runtime's Unicode lowering; the model takes it as the parameter
  \<open>lc\<close>. Calling it on \<open>null\<close> or \<open>undefined\<close> raises a TypeError, which ends the filter.
\<close>

definition dedupKey :: "(jsstring \<Rightarrow> jsstring) \<Rightarrow> jsstring \<Rightarrow> jsstring" where
  "dedupKey lc t = take 50 (lc t)"

fun removeDuplicates_from ::
  "(jsstring \<Rightarrow> jsstring) \<Rightarrow> jsstring set \<Rightarrow> article list \<Rightarrow> error + article list" where
  "removeDuplicates_from lc seen [] = Inr []"
| "removeDuplicates_from lc seen (a # as) =
     (case title a of
        Str t \<Rightarrow>
          (let key = dedupKey lc t in
           if key \<in> seen then removeDuplicates_from lc seen as
           else (case removeDuplicates_from lc (insert key seen) as of
                   Inl e \<Rightarrow> Inl e
                 | Inr kept \<Rightarrow> Inr (a # kept)))
      | _ \<Rightarrow> Inl TypeError)"

definition removeDuplicates :: "(jsstring \<Rightarrow> jsstring) \<Rightarrow> article list \<Rightarrow> error + article list" where
  "removeDuplicates lc articles = removeDuplicates_from lc {} articles"

text \<open>The lowering of the ASCII letters, used where a concrete run is evaluated.\<close>

definition asciiLower :: "jsstring \<Rightarrow> jsstring" where
  "asciiLower s = map (\<lambda>c. if 65 \<le> c \<and> c \<le> 90 then c + 32 else c) s"

text \<open>The title text of an article whose title is a string.\<close>

fun titleText :: "article \<Rightarrow> jsstring" where
  "titleText a = (case title a of Str t \<Rightarrow> t | _ \<Rightarrow> [])"

fun hasTitle :: "article \<Rightarrow> bool" where
  "hasTitle a = (case title a of Str t \<Rightarrow> True | _ \<Rightarrow> False)"

definition articleKey :: "(jsstring \<Rightarrow> jsstring) \<Rightarrow> article \<Rightarrow> jsstring" where
  "articleKey lc a = dedupKey lc (titleText a)"

text \<open>The positions of the input that hold the first article of their dedup key.\<close>

definition firstOfKey :: "(jsstring \<Rightarrow> jsstring) \<Rightarrow> article list \<Rightarrow> nat \<Rightarrow> bool" where
  "firstOfKey lc xs i = (\<forall>j<i. articleKey lc (xs ! j) \<noteq> articleKey lc (xs ! i))"


section \<open>String search and numbers\<close>

text \<open>\<open>s.includes(p)\<close>: \<open>p\<close> occurs in \<open>s\<close> as a contiguous run of code units.\<close>

fun startsWith :: "jsstring \<Rightarrow> jsstring \<Rightarrow> bool" where
  "startsWith s [] = True"
| "startsWith [] (p # ps) = False"
| "startsWith (c # s) (p # ps) = (c = p \<and> startsWith s ps)"

fun jsIncludes :: "jsstring \<Rightarrow> jsstring \<Rightarrow> bool" where
  "jsIncludes [] p = (p = [])"
| "jsIncludes (c # s) p = (startsWith (c # s) p \<or> jsIncludes s p)"

text \<open>
  A JavaScript number that may be NaN is an option: \<open>None\<close> is NaN, and every comparison
  with NaN is false. Time values are integers (milliseconds), and the rating is a sum of
  tenths: the model computes with exact reals, where the source's doubles carry an error
  far below the half-unit that \<open>Math.round\<close> could see.
\<close>

fun numLess :: "real option \<Rightarrow> real \<Rightarrow> bool" where
  "numLess None c = False"
| "numLess (Some v) c = (v < c)"

definition mathRound :: "real \<Rightarrow> int" where
  "mathRound x = \<lfloor>x + 1 / 2\<rfloor>"

text \<open>\<open>(Date.now() - new Date(article.publishedAt)) / (1000 * 60 * 60)\<close>\<close>

definition hoursSincePublished :: "int \<Rightarrow> article \<Rightarrow> real option" where
  "hoursSincePublished now a =
     (case publishedAt a of
        None \<Rightarrow> None
      | Some t \<Rightarrow> Some (real_of_int (now - t) / (1000 * 60 * 60)))"

text \<open>\<open>(article.title + ' ' + article.description).toLowerCase()\<close>\<close>

definition articleText :: "(jsstring \<Rightarrow> jsstring) \<Rightarrow> article \<Rightarrow> jsstring" where
  "articleText lc a = lc (toString (title a) @ str '' '' @ toString (description a))"

section \<open>The Korean literals of the source, by code unit\<close>

definition kw_urgent :: jsstring where \<comment> \<open>U+AE34 U+AE09, "urgent"\<close>
  "kw_urgent = [44596, 44553]"

definition kw_important :: jsstring where \<comment> \<open>U+C911 U+C694, "important"\<close>
  "kw_important = [51473, 50836]"

definition tag_world :: jsstring where \<comment> \<open>U+AD6D U+C81C, "international"\<close>
  "tag_world = [44397, 51228]"

definition tag_kr :: jsstring where \<comment> \<open>U+D55C U+AD6D, "Korea"\<close>
  "tag_kr = [54620, 44397]"

definition tag_japan :: jsstring where \<comment> \<open>U+C77C U+BCF8, "Japan"\<close>
  "tag_japan = [51068, 48376]"

definition tag_tech :: jsstring where \<comment> \<open>U+AE30 U+C220, "technology"\<close>
  "tag_tech = [44592, 49696]"

definition tag_business :: jsstring where \<comment> \<open>U+ACBD U+C81C, "economy"\<close>
  "tag_business = [44221, 51228]"

definition tag_buzz :: jsstring where \<comment> \<open>U+BC84 U+C988, "buzz"\<close>
  "tag_buzz = [48260, 51592]"

definition tag_realtime :: jsstring where \<comment> \<open>U+C2E4 U+C2DC U+AC04, "real time"\<close>
  "tag_realtime = [49892, 49884, 44036]"

definition tag_overseas :: jsstring where \<comment> \<open>U+D574 U+C678, "overseas"\<close>
  "tag_overseas = [54644, 50808]"

definition tag_domestic :: jsstring where \<comment> \<open>U+AD6D U+B0B4, "domestic"\<close>
  "tag_domestic = [44397, 45236]"

definition tag_justnow :: jsstring where \<comment> \<open>U+BC29 U+AE08, "just now"\<close>
  "tag_justnow = [48169, 44552]"

definition tag_environment :: jsstring where \<comment> \<open>U+D658 U+ACBD, "environment"\<close>
  "tag_environment = [54872, 44221]"

section \<open>calculateRating\<close>

text \<open>
  \<^verbatim>\<open>
  let rating = 3.0;
  if (article.apiSource === 'NewsAPI') rating += 0.3;
  if (article.apiSource === 'Naver') rating += 0.5;
  if (article.apiSource === 'X') rating += 0.7;
  const hoursSincePublished = (Date.now() - new Date(article.publishedAt)) / (1000 * 60 * 60);
  if (hoursSincePublished < 2) rating += 0.8;
  else if (hoursSincePublished < 6) rating += 0.4;
  else if (hoursSincePublished < 24) rating += 0.2;
  const text = (article.title + ' ' + article.description).toLowerCase();
  if (text.includes('breaking') || text.includes('urgent') || text.includes(KW_URGENT)) rating += 1.0;
  if (text.includes('important') || text.includes('major') || text.includes(KW_IMPORTANT)) rating += 0.6;
  if (article.metrics) {
    const engagement = article.metrics.retweet_count + article.metrics.like_count;
    if (engagement > 1000) rating += 0.5;
    if (engagement > 10000) rating += 0.8;
  }
  return Math.min(5.0, Math.max(1.0, Math.round(rating * 10) / 10));
  \<close>
\<close>

definition sourceBonus :: "article \<Rightarrow> real" where
  "sourceBonus a =
     (if apiSource a = Str (str ''NewsAPI'') then 3 / 10 else 0)
     + (if apiSource a = Str (str ''Naver'') then 5 / 10 else 0)
     + (if apiSource a = Str (str ''X'') then 7 / 10 else 0)"

definition recencyBonus :: "int \<Rightarrow> article \<Rightarrow> real" where
  "recencyBonus now a =
     (let h = hoursSincePublished now a in
      if numLess h 2 then 8 / 10
      else if numLess h 6 then 4 / 10
      else if numLess h 24 then 2 / 10
      else 0)"

definition keywordBonus :: "(jsstring \<Rightarrow> jsstring) \<Rightarrow> article \<Rightarrow> real" where
  "keywordBonus lc a =
     (let text = articleText lc a in
      (if jsIncludes text (str ''breaking'') \<or> jsIncludes text (str ''urgent'') \<or> jsIncludes text kw_urgent
       then 1 else 0)
      + (if jsIncludes text (str ''important'') \<or> jsIncludes text (str ''major'') \<or> jsIncludes text kw_important
         then 6 / 10 else 0))"

definition engagementBonus :: "article \<Rightarrow> real" where
  "engagementBonus a =
     (case metrics a of
        None \<Rightarrow> 0
      | Some m \<Rightarrow>
          (let engagement = retweet_count m + like_count m in
           (if engagement > 1000 then 5 / 10 else 0)
           + (if engagement > 10000 then 8 / 10 else 0)))"

definition calculateRating :: "(jsstring \<Rightarrow> jsstring) \<Rightarrow> int \<Rightarrow> article \<Rightarrow> real" where
  "calculateRating lc now a =
     (let rating = 3 + sourceBonus a + recencyBonus now a + keywordBonus lc a + engagementBonus a
      in min 5 (max 1 (real_of_int (mathRound (rating * 10)) / 10)))"

section \<open>generateTags\<close>

text \<open>
  \<open>[...new Set(tags)]\<close>: the elements of the array in the order of their first insertion
  into the set.
\<close>

fun uniqueInOrder_from :: "'a set \<Rightarrow> 'a list \<Rightarrow> 'a list" where
  "uniqueInOrder_from seen [] = []"
| "uniqueInOrder_from seen (x # xs) =
     (if x \<in> seen then uniqueInOrder_from seen xs
      else x # uniqueInOrder_from (insert x seen) xs)"

definition uniqueInOrder :: "'a list \<Rightarrow> 'a list" where
  "uniqueInOrder xs = uniqueInOrder_from {} xs"

text \<open>
  The array \<open>tags\<close> as the pushes of \<open>generateTags\<close> leave it, before the last line.
  \<open>article.source\<close> is pushed as it is, so a tag is a field value.
\<close>

definition sectionTag :: "jsstring \<Rightarrow> jsval list" where
  "sectionTag sec =
     (if sec = str ''world'' then [Str tag_world]
      else if sec = str ''kr'' then [Str tag_kr]
      else if sec = str ''japan'' then [Str tag_japan]
      else if sec = str ''tech'' then [Str tag_tech]
      else if sec = str ''business'' then [Str tag_business]
      else if sec = str ''buzz'' then [Str tag_buzz]
      else [])"

definition pushedTags :: "(jsstring \<Rightarrow> jsstring) \<Rightarrow> int \<Rightarrow> article \<Rightarrow> jsstring \<Rightarrow> jsval list" where
  "pushedTags lc now a sec =
     (let text = articleText lc a in
      [source a]
      @ sectionTag sec
      @ (if apiSource a = Str (str ''X'') then [Str tag_realtime] else [])
      @ (if apiSource a = Str (str ''NewsAPI'') then [Str tag_overseas] else [])
      @ (if apiSource a = Str (str ''Naver'') then [Str tag_domestic] else [])
      @ (if jsIncludes text (str ''breaking'') \<or> jsIncludes text kw_urgent then [Str kw_urgent] else [])
      @ (if jsIncludes text (str ''important'') \<or> jsIncludes text kw_important then [Str kw_important] else [])
      @ (if jsIncludes text (str ''trending'') \<or> jsIncludes text (str ''viral'') then [Str (str ''Hot'')] else [])
      @ (if numLess (hoursSincePublished now a) 2 then [Str tag_justnow] else []))"

definition generateTags :: "(jsstring \<Rightarrow> jsstring) \<Rightarrow> int \<Rightarrow> article \<Rightarrow> jsstring \<Rightarrow> jsval list" where
  "generateTags lc now a sec = take 4 (uniqueInOrder (pushedTags lc now a sec))"

text \<open>The position of the first occurrence of \<open>x\<close> in \<open>xs\<close>.\<close>

definition firstIndex :: "'a list \<Rightarrow> 'a \<Rightarrow> nat" where
  "firstIndex xs x = length (takeWhile (\<lambda>y. y \<noteq> x) xs)"

section \<open>Array.prototype.sort\<close>

text \<open>
  The comparator of \<open>processArticles\<close> is
  \<open>(a, b) => new Date(b.publishedAt) - new Date(a.publishedAt)\<close>: a difference of time
  values, NaN as soon as one of the two dates does not parse.
\<close>

definition compareByDate :: "article \<Rightarrow> article \<Rightarrow> int option" where
  "compareByDate a b =
     (case (publishedAt b, publishedAt a) of
        (Some tb, Some ta) \<Rightarrow> Some (tb - ta)
      | _ \<Rightarrow> None)"

text \<open>
  \<open>Array.prototype.sort\<close> is the runtime's. The language standard's SortCompare takes
  a comparator result of NaN as +0.
\<close>

definition sortCompare :: "('a \<Rightarrow> 'a \<Rightarrow> int option) \<Rightarrow> 'a \<Rightarrow> 'a \<Rightarrow> int" where
  "sortCompare cmp x y = (case cmp x y of None \<Rightarrow> 0 | Some v \<Rightarrow> v)"

text \<open>
  For a consistent comparator the standard fixes the result: the elements in the order
  of the comparator, elements that compare equal in their input order. \<open>stableSort\<close>
  computes it, by the insertion sort that walks each element down from the end of the
  sorted prefix while its left neighbour compares greater. \<open>sortInsert\<close> holds the
  sorted prefix last element first.
\<close>

fun sortInsert :: "('a \<Rightarrow> 'a \<Rightarrow> int option) \<Rightarrow> 'a \<Rightarrow> 'a list \<Rightarrow> 'a list" where
  "sortInsert cmp x [] = [x]"
| "sortInsert cmp x (y # ys) =
     (if sortCompare cmp y x > 0 then y # sortInsert cmp x ys else x # y # ys)"

definition stableSort :: "('a \<Rightarrow> 'a \<Rightarrow> int option) \<Rightarrow> 'a list \<Rightarrow> 'a list" where
  "stableSort cmp xs = rev (foldl (\<lambda>prefix x. sortInsert cmp x prefix) [] xs)"

text \<open>
  A comparator that returns NaN for some pair is not consistent, and the standard leaves
  the order to the implementation. The comparator of \<open>processArticles\<close> returns NaN
  exactly when one of the two dates does not parse, and is a difference of numbers
  otherwise. So the model of the call \<open>.sort(compareByDate)\<close> is the stable sort when
  every date of the array parses, and otherwise what the runtime makes of the array:
  the parameter \<open>rt\<close>, the runtime's sort.
\<close>

fun parses :: "'a article_scheme \<Rightarrow> bool" where
  "parses a = (case publishedAt a of None \<Rightarrow> False | Some t \<Rightarrow> True)"

type_synonym sorter = "(article \<Rightarrow> article \<Rightarrow> int option) \<Rightarrow> article list \<Rightarrow> article list"

definition sortByDate :: "sorter \<Rightarrow> article list \<Rightarrow> article list" where
  "sortByDate rt xs =
     (if list_all parses xs then stableSort compareByDate xs else rt compareByDate xs)"

subsection \<open>The sort of V8 on short arrays\<close>

text \<open>
  Node's runtime, V8 (from its version 7.0, Node 11), returns an array of fewer than two
  elements as it is, and sorts an array of fewer than 64 elements in two steps. It takes
  the longest run at the start of the array that is either ascending (each element
  compares not less than its left neighbour) or strictly descending (each element
  compares less than its left neighbour), and reverses the run if it is descending:
  \<^verbatim>\<open>
  let runLength = 2;
  let order = Compare(work[low + 1], work[low]);
  const isDescending = order < 0;
  let previous = work[low + 1];
  for (let idx = low + 2; idx < high; ++idx) {
    order = Compare(work[idx], previous);
    if (isDescending) { if (order >= 0) break; } else { if (order < 0) break; }
    previous = work[idx];
    ++runLength;
  }
  if (isDescending) ReverseRange(work, low, low + runLength);
  \<close>
  Then it inserts each remaining element into the sorted prefix at the place a binary
  search finds:
  \<^verbatim>\<open>
  for (; start < high; ++start) {
    let left = low; let right = start;
    const pivot = work[right];
    while (left < right) {
      const mid = left + ((right - left) >> 1);
      if (Compare(pivot, work[mid]) < 0) right = mid; else left = mid + 1;
    }
    for (let p = start; p > left; --p) work[p] = work[p - 1];
    work[left] = pivot;
  }
  \<close>
  An array of 64 elements or more it cuts into such runs and merges them; that part is
  not modelled, and \<open>v8SortShort\<close> stands for the runtime on arrays of fewer than 64
  elements only.
\<close>

fun extendRun :: "('a \<Rightarrow> 'a \<Rightarrow> int option) \<Rightarrow> bool \<Rightarrow> 'a \<Rightarrow> 'a list \<Rightarrow> nat" where
  "extendRun cmp isDescending previous [] = 0"
| "extendRun cmp isDescending previous (current # rest) =
     (let order = sortCompare cmp current previous in
      if (if isDescending then order \<ge> 0 else order < 0) then 0
      else Suc (extendRun cmp isDescending current rest))"

definition countAndMakeRun :: "('a \<Rightarrow> 'a \<Rightarrow> int option) \<Rightarrow> 'a list \<Rightarrow> 'a list \<times> nat" where
  "countAndMakeRun cmp work =
     (case work of
        elementHigh # elementLow # rest \<Rightarrow>
          (let isDescending = (sortCompare cmp elementLow elementHigh < 0);
               runLength = 2 + extendRun cmp isDescending elementLow rest
           in (if isDescending then rev (take runLength work) @ drop runLength work else work,
               runLength))
      | _ \<Rightarrow> (work, length work))"

function binarySearch :: "('a \<Rightarrow> 'a \<Rightarrow> int option) \<Rightarrow> 'a \<Rightarrow> 'a list \<Rightarrow> nat \<Rightarrow> nat \<Rightarrow> nat" where
  "binarySearch cmp pivot work left right =
     (if left < right then
        (let mid = left + (right - left) div 2 in
         if sortCompare cmp pivot (work ! mid) < 0 then binarySearch cmp pivot work left mid
         else binarySearch cmp pivot work (mid + 1) right)
      else left)"
  by pat_completeness auto
termination
  by (relation "measure (\<lambda>(cmp, pivot, work, left, right). right - left)") auto

declare binarySearch.simps [simp del]

fun binaryInsertionSort :: "('a \<Rightarrow> 'a \<Rightarrow> int option) \<Rightarrow> 'a list \<Rightarrow> 'a list \<Rightarrow> 'a list" where
  "binaryInsertionSort cmp sortedPart [] = sortedPart"
| "binaryInsertionSort cmp sortedPart (pivot # rest) =
     (let left = binarySearch cmp pivot sortedPart 0 (length sortedPart) in
      binaryInsertionSort cmp (take left sortedPart @ pivot # drop left sortedPart) rest)"

definition v8SortShort :: "('a \<Rightarrow> 'a \<Rightarrow> int option) \<Rightarrow> 'a list \<Rightarrow> 'a list" where
  "v8SortShort cmp xs =
     (if length xs < 2 then xs
      else (let (work, runLength) = countAndMakeRun cmp xs in
            binaryInsertionSort cmp (take runLength work) (drop runLength work)))"

section \<open>processArticles\<close>

text \<open>
  \<^verbatim>\<open>
  const uniqueArticles = this.removeDuplicates(articles);
  const sortedArticles = uniqueArticles
    .filter(article => article.title && article.url)
    .sort((a, b) => new Date(b.publishedAt) - new Date(a.publishedAt));
  const enhancedArticles = sortedArticles.map(article => ({
    ...article,
    id: ..., timeAgo: ...,
    rating: this.calculateRating(article),
    tags: this.generateTags(article, section),
    titleKo: ..., descriptionKo: ...
  }));
  return enhancedArticles;
  \<close>
  Of the derived fields the model keeps \<open>rating\<close> and \<open>tags\<close>; \<open>id\<close>, \<open>timeAgo\<close>,
  \<open>titleKo\<close> and \<open>descriptionKo\<close> are computed without raising and read nowhere else.
\<close>

record enhanced = article +
  rating :: real
  tags :: "jsval list"

definition hasTitleAndUrl :: "article \<Rightarrow> bool" where
  "hasTitleAndUrl a = (truthy (title a) \<and> truthy (url a))"

definition enhance :: "(jsstring \<Rightarrow> jsstring) \<Rightarrow> int \<Rightarrow> jsstring \<Rightarrow> article \<Rightarrow> enhanced" where
  "enhance lc now sec a =
     \<lparr>title = title a, description = description a, url = url a,
      publishedAt = publishedAt a, source = source a, apiSource = apiSource a,
      metrics = metrics a,
      rating = calculateRating lc now a, tags = generateTags lc now a sec\<rparr>"

definition processArticles ::
  "(jsstring \<Rightarrow> jsstring) \<Rightarrow> sorter \<Rightarrow> int \<Rightarrow> article list \<Rightarrow> jsstring \<Rightarrow> error + enhanced list" where
  "processArticles lc rt now articles sec =
     (case removeDuplicates lc articles of
        Inl e \<Rightarrow> Inl e
      | Inr uniqueArticles \<Rightarrow>
          Inr (map (enhance lc now sec)
                 (sortByDate rt (filter hasTitleAndUrl uniqueArticles))))"

text \<open>
  The order the specification asks for: the parsed timestamp, a date that does not parse
  counting as the epoch.
\<close>

definition timestampOrEpoch :: "'a article_scheme \<Rightarrow> int" where
  "timestampOrEpoch a = (case publishedAt a of None \<Rightarrow> 0 | Some t \<Rightarrow> t)"

definition newestFirst :: "'a article_scheme list \<Rightarrow> bool" where
  "newestFirst xs = sorted_wrt (\<lambda>a b. timestampOrEpoch b \<le> timestampOrEpoch a) xs"

section \<open>Provider adapters\<close>

text \<open>
  The providers are the environment. For each request the record holds its outcome: the
  article list the adapter would build from the payload, or the failure of the request.
  The credentials are held by whether they are set.
\<close>

record providers =
  newsapiKey :: bool
  naverClientId :: bool
  naverClientSecret :: bool
  xBearerToken :: bool
  newsapiResponse :: "jsstring \<Rightarrow> jsstring \<Rightarrow> error + article list"
  naverResponse :: "error + article list"
  xResponse :: "error + article list"
  rssResponse :: "jsstring \<Rightarrow> error + article list"

text \<open>
  \<open>fetchFromNewsAPI(category, country = 'us')\<close>, \<open>fetchFromNaverAPI()\<close> and
  \<open>fetchFromXAPI()\<close> wrap the request in \<open>try\<close>/\<open>catch\<close> and return \<open>[]\<close> on any failure.
\<close>

definition fetchFromNewsAPI :: "providers \<Rightarrow> jsstring \<Rightarrow> jsstring \<Rightarrow> article list" where
  "fetchFromNewsAPI prov category country =
     (case newsapiResponse prov category country of Inl e \<Rightarrow> [] | Inr found \<Rightarrow> found)"

definition fetchFromNaverAPI :: "providers \<Rightarrow> article list" where
  "fetchFromNaverAPI prov = (case naverResponse prov of Inl e \<Rightarrow> [] | Inr found \<Rightarrow> found)"

definition fetchFromXAPI :: "providers \<Rightarrow> article list" where
  "fetchFromXAPI prov =
     (if \<not> xBearerToken prov then []
      else (case xResponse prov of Inl e \<Rightarrow> [] | Inr found \<Rightarrow> found))"

definition fetchWorldNews :: "providers \<Rightarrow> article list" where
  "fetchWorldNews prov =
     (if newsapiKey prov then fetchFromNewsAPI prov (str ''general'') (str ''us,gb,ca,au'') else [])"

definition fetchKoreanNews :: "providers \<Rightarrow> article list" where
  "fetchKoreanNews prov =
     (if naverClientId prov \<and> naverClientSecret prov then fetchFromNaverAPI prov else [])"

definition fetchJapanNews :: "providers \<Rightarrow> article list" where
  "fetchJapanNews prov =
     (if newsapiKey prov then fetchFromNewsAPI prov (str ''general'') (str ''jp'') else [])"

definition fetchTechNews :: "providers \<Rightarrow> article list" where
  "fetchTechNews prov =
     (if newsapiKey prov then fetchFromNewsAPI prov (str ''technology'') (str ''us'') else [])"

definition fetchBusinessNews :: "providers \<Rightarrow> article list" where
  "fetchBusinessNews prov =
     (if newsapiKey prov then fetchFromNewsAPI prov (str ''business'') (str ''us'') else [])"

definition fetchBuzzNews :: "providers \<Rightarrow> article list" where
  "fetchBuzzNews prov =
     (if xBearerToken prov then fetchFromXAPI prov else [])
     @ (if newsapiKey prov then fetchFromNewsAPI prov (str ''entertainment'') (str ''us'') else [])"

text \<open>The \<open>switch (section)\<close> of \<open>getNews\<close>.\<close>

definition fetchSection :: "providers \<Rightarrow> jsstring \<Rightarrow> article list" where
  "fetchSection prov sec =
     (if sec = str ''world'' then fetchWorldNews prov
      else if sec = str ''kr'' then fetchKoreanNews prov
      else if sec = str ''japan'' then fetchJapanNews prov
      else if sec = str ''tech'' then fetchTechNews prov
      else if sec = str ''business'' then fetchBusinessNews prov
      else if sec = str ''buzz'' then fetchBuzzNews prov
      else fetchWorldNews prov)"

text \<open>
  \<open>rssSources\<close> and the \<open>mockData\<close> of \<open>getMockArticles\<close> are object literals, and
  \<open>table[section]\<close> finds, besides the entries of the table, the members every object
  inherits from \<open>Object.prototype\<close>: for the section \<open>constructor\<close> the lookup yields the
  function \<open>Object\<close>. The members are listed with their \<open>length\<close>: the number of
  parameters of a function, and \<open>undefined\<close> (here \<open>None\<close>) for \<open>__proto__\<close>, whose value
  is the object \<open>Object.prototype\<close>. Each of them is truthy, and none of them is an
  array or can be iterated.
\<close>

definition objectPrototype :: "(jsstring \<times> nat option) list" where
  "objectPrototype =
     [(str ''constructor'', Some 1),
      (str ''__defineGetter__'', Some 2),
      (str ''__defineSetter__'', Some 2),
      (str ''hasOwnProperty'', Some 1),
      (str ''__lookupGetter__'', Some 1),
      (str ''__lookupSetter__'', Some 1),
      (str ''isPrototypeOf'', Some 1),
      (str ''propertyIsEnumerable'', Some 1),
      (str ''toString'', Some 0),
      (str ''valueOf'', Some 0),
      (str ''__proto__'', None),
      (str ''toLocaleString'', Some 0)]"

definition inheritedName :: "jsstring \<Rightarrow> bool" where
  "inheritedName sec = (sec \<in> set (map fst objectPrototype))"

text \<open>
  The value of \<open>table[section] || fallback\<close>: a list, or the member of
  \<open>Object.prototype\<close> of the given name.
\<close>

datatype 'a looked_up = Listed 'a | Inherited jsstring

text \<open>\<open>this.rssSources[section] || []\<close>, each source by its name.\<close>

definition rssSources :: "jsstring \<Rightarrow> jsstring list looked_up" where
  "rssSources sec =
     (if sec = str ''world'' then Listed [str ''BBC'', str ''Reuters'']
      else if sec = str ''kr'' then Listed [str ''KBS'']
      else if sec = str ''japan'' then Listed [str ''NHK'', str ''Japan Times'']
      else if inheritedName sec then Inherited sec
      else Listed [])"

text \<open>
  \<^verbatim>\<open>
  async fetchRSSArticles(section) {
    const sources = this.rssSources[section] || [];
    const articles = [];
    for (const source of sources) {
      try {
        const rssArticles = await this.fetchFromRSSSource(source);
        if (rssArticles.length > 0) {
          articles.push(...rssArticles.slice(0, 5));
        }
      } catch (error) { continue; }
    }
    return articles;
  }
  \<close>
  \<open>fetchFromRSSSource\<close> returns the items of the feed or throws; its outcome is
  \<open>rssResponse\<close>. The \<open>for\<close> over an inherited member raises a TypeError (the value is
  not iterable), outside the \<open>try\<close> of the loop body.
\<close>

fun fetchRSSArticles_loop :: "providers \<Rightarrow> article list \<Rightarrow> jsstring list \<Rightarrow> article list" where
  "fetchRSSArticles_loop prov articles [] = articles"
| "fetchRSSArticles_loop prov articles (src # srcs) =
     (case rssResponse prov src of
        Inl e \<Rightarrow> fetchRSSArticles_loop prov articles srcs
      | Inr rssArticles \<Rightarrow>
          (if length rssArticles > 0
           then fetchRSSArticles_loop prov (articles @ take 5 rssArticles) srcs
           else fetchRSSArticles_loop prov articles srcs))"

definition fetchRSSArticles :: "providers \<Rightarrow> jsstring \<Rightarrow> error + article list" where
  "fetchRSSArticles prov sec =
     (case rssSources sec of
        Inherited member \<Rightarrow> Inl TypeError
      | Listed sources \<Rightarrow> Inr (fetchRSSArticles_loop prov [] sources))"

text \<open>
  The sequence \<open>getNews\<close> hands to \<open>processArticles\<close>, when \<open>fetchRSSArticles\<close> returns:
  \<^verbatim>\<open>
  switch (section) { ... }
  const rssArticles = await this.fetchRSSArticles(section);
  if (rssArticles.length > 0) { articles = [...articles, ...rssArticles]; }
  \<close>
\<close>

definition gatherArticles :: "providers \<Rightarrow> jsstring \<Rightarrow> error + article list" where
  "gatherArticles prov sec =
     (let articles = fetchSection prov sec in
      case fetchRSSArticles prov sec of
        Inl e \<Rightarrow> Inl e
      | Inr rssArticles \<Rightarrow>
          Inr (if length rssArticles > 0 then articles @ rssArticles else articles))"

text \<open>What one feed adds to the sequence.\<close>

definition feedShare :: "providers \<Rightarrow> jsstring \<Rightarrow> article list" where
  "feedShare prov src = (case rssResponse prov src of Inl e \<Rightarrow> [] | Inr items \<Rightarrow> take 5 items)"

text \<open>The feeds of a section: the list the lookup yields, none when it yields an inherited member.\<close>

definition feedsOf :: "jsstring \<Rightarrow> jsstring list" where
  "feedsOf sec = (case rssSources sec of Listed sources \<Rightarrow> sources | Inherited member \<Rightarrow> [])"

section \<open>The cache\<close>

text \<open>
  The cache backend holds, for a key, the stored list and the time at which the entry
  expires. \<open>isOpen\<close> is false when there is no client or the client is not open; a
  request that fails is caught by the source like a closed client. The JSON encoding of
  the stored list is not modelled.
  \<^verbatim>\<open>
  async getCachedNews(cacheKey) {
    try {
      const client = database.getClient();
      if (!client || !client.isOpen) return null;
      const cached = await client.get(cacheKey);
      if (cached) { return JSON.parse(cached); }
    } catch (error) { ... }
    return null;
  }
  async cacheNews(cacheKey, articles) {
    try {
      const client = database.getClient();
      if (!client || !client.isOpen) return;
      await client.setEx(cacheKey, 600, JSON.stringify(articles));
    } catch (error) { ... }
  }
  \<close>
\<close>

record backend =
  isOpen :: bool
  entries :: "jsstring \<rightharpoonup> int \<times> enhanced list"

definition getCachedNews :: "int \<Rightarrow> backend \<Rightarrow> jsstring \<Rightarrow> enhanced list option" where
  "getCachedNews now st cacheKey =
     (if \<not> isOpen st then None
      else (case entries st cacheKey of
              None \<Rightarrow> None
            | Some (expiry, stored) \<Rightarrow> if now < expiry then Some stored else None))"

definition cacheNews :: "int \<Rightarrow> backend \<Rightarrow> jsstring \<Rightarrow> enhanced list \<Rightarrow> backend" where
  "cacheNews now st cacheKey processed =
     (if \<not> isOpen st then st
      else st\<lparr>entries := (entries st)(cacheKey \<mapsto> (now + 600 * 1000, processed))\<rparr>)"

text \<open>\<open>cached && cached.length > 0\<close>\<close>

fun usable :: "enhanced list option \<Rightarrow> enhanced list option" where
  "usable None = None"
| "usable (Some stored) = (if length stored > 0 then Some stored else None)"

text \<open>Every entry of the cache holds a list that is not empty.\<close>

definition noEmptyEntry :: "backend \<Rightarrow> bool" where
  "noEmptyEntry st = (\<forall>k expiry stored. entries st k = Some (expiry, stored) \<longrightarrow> stored \<noteq> [])"

section \<open>getNews\<close>

text \<open>
  \<open>getMockArticles(section)\<close> returns \<open>mockData[section] || mockData.world\<close>, where
  \<open>mockData\<close> has the one entry \<open>world\<close>, a list of one article.
\<close>

definition mockArticle :: "int \<Rightarrow> enhanced" where
  "mockArticle now =
     \<lparr>title = Str (str ''Global Climate Summit Reaches Historic Agreement''),
      description = Str (str ''World leaders announce breakthrough climate policies to combat global warming.''),
      url = Str (str ''https://example.com/climate-summit''),
      publishedAt = Some (now - 2 * 60 * 60 * 1000),
      source = Str (str ''NewsAPI''),
      apiSource = Str (str ''Mock''),
      metrics = None,
      rating = 45 / 10,
      tags = [Str kw_urgent, Str tag_environment, Str (str ''NewsAPI'')]\<rparr>"

definition getMockArticles :: "int \<Rightarrow> jsstring \<Rightarrow> enhanced list looked_up" where
  "getMockArticles now sec =
     (if sec = str ''world'' then Listed [mockArticle now]
      else if inheritedName sec then Inherited sec
      else Listed [mockArticle now])"

text \<open>
  \<open>mockArticles.length\<close>: the length of the list, or the \<open>length\<close> of the inherited
  member.
\<close>

definition lengthOf :: "'a list looked_up \<Rightarrow> nat option" where
  "lengthOf v =
     (case v of
        Listed xs \<Rightarrow> Some (length xs)
      | Inherited member \<Rightarrow> (case map_of objectPrototype member of None \<Rightarrow> None | Some l \<Rightarrow> l))"

text \<open>
  The response \<open>{ success, data: { section, articles, total, cached, fallback, mock } }\<close>.
  \<open>articles\<close> is a list on every path but the mock path, where it is what
  \<open>getMockArticles\<close> returns; \<open>total\<close> is a number or \<open>undefined\<close> (\<open>None\<close>). A flag the
  source leaves out of a response is false here. \<open>timestamp\<close> and \<open>sources\<close> are not
  modelled.
\<close>

record response =
  success :: bool
  data_section :: jsstring
  data_articles :: "enhanced list looked_up"
  data_total :: "nat option"
  data_cached :: bool
  data_fallback :: bool
  data_mock :: bool

text \<open>
  The \<open>try\<close> block of \<open>getNews\<close> after the cache check, up to \<open>processArticles\<close>: the
  processed list, or the error that sends \<open>getNews\<close> to its \<open>catch\<close> block.
\<close>

definition fetchAndProcess ::
  "(jsstring \<Rightarrow> jsstring) \<Rightarrow> sorter \<Rightarrow> int \<Rightarrow> providers \<Rightarrow> jsstring \<Rightarrow> error + enhanced list" where
  "fetchAndProcess lc rt now prov sec =
     (case gatherArticles prov sec of
        Inl e \<Rightarrow> Inl e
      | Inr articles \<Rightarrow> processArticles lc rt now articles sec)"

text \<open>
  \<^verbatim>\<open>
  async getNews(section = 'world', useCache = true) {
    try {
      const cacheKey = `news:${section}`;
      if (useCache) {
        const cached = await this.getCachedNews(cacheKey);
        if (cached && cached.length > 0) {
          return { success: true, data: { section, articles: cached.slice(0, 20),
                   total: cached.length, cached: true } };
        }
      }
      let articles = [];
      switch (section) { ... }
      const rssArticles = await this.fetchRSSArticles(section);
      if (rssArticles.length > 0) { articles = [...articles, ...rssArticles]; }
      const processedArticles = await this.processArticles(articles, section);
      if (processedArticles.length > 0) {
        await this.cacheNews(cacheKey, processedArticles);
      }
      return { success: true, data: { section, articles: processedArticles.slice(0, 20),
               total: processedArticles.length, cached: false } };
    } catch (error) {
      try {
        const cached = await this.getCachedNews(`news:${section}`);
        if (cached && cached.length > 0) {
          return { success: true, data: { section, articles: cached.slice(0, 10),
                   total: cached.length, cached: true, fallback: true } };
        }
      } catch (cacheError) { ... }
      const mockArticles = this.getMockArticles(section);
      return { success: true, data: { section, articles: mockArticles,
               total: mockArticles.length, mock: true, fallback: true } };
    }
  }
  \<close>
  The model returns the response and the cache backend after the call. One value of
  \<open>now\<close> stands for the clock during the call.
\<close>

definition getNews ::
  "(jsstring \<Rightarrow> jsstring) \<Rightarrow> sorter \<Rightarrow> int \<Rightarrow> providers \<Rightarrow> backend \<Rightarrow> jsstring \<Rightarrow> bool
     \<Rightarrow> response \<times> backend" where
  "getNews lc rt now prov st sec useCache =
     (let cacheKey = str ''news:'' @ sec in
      case (if useCache then usable (getCachedNews now st cacheKey) else None) of
        Some cached \<Rightarrow>
          (\<lparr>success = True, data_section = sec, data_articles = Listed (take 20 cached),
            data_total = Some (length cached), data_cached = True, data_fallback = False,
            data_mock = False\<rparr>, st)
      | None \<Rightarrow>
          (case fetchAndProcess lc rt now prov sec of
             Inr processedArticles \<Rightarrow>
               (\<lparr>success = True, data_section = sec,
                 data_articles = Listed (take 20 processedArticles),
                 data_total = Some (length processedArticles), data_cached = False,
                 data_fallback = False, data_mock = False\<rparr>,
                if length processedArticles > 0 then cacheNews now st cacheKey processedArticles else st)
           | Inl e \<Rightarrow>
               (case usable (getCachedNews now st cacheKey) of
                  Some cached \<Rightarrow>
                    (\<lparr>success = True, data_section = sec, data_articles = Listed (take 10 cached),
                      data_total = Some (length cached), data_cached = True, data_fallback = True,
                      data_mock = False\<rparr>, st)
                | None \<Rightarrow>
                    (\<lparr>success = True, data_section = sec, data_articles = getMockArticles now sec,
                      data_total = lengthOf (getMockArticles now sec), data_cached = False,
                      data_fallback = True, data_mock = True\<rparr>, st))))"

text \<open>
  A series of requests, each with its clock, the providers' answers at that time, its
  section and \<open>useCache\<close>.
\<close>

fun serve ::
  "(jsstring \<Rightarrow> jsstring) \<Rightarrow> sorter \<Rightarrow> backend \<Rightarrow> (int \<times> providers \<times> jsstring \<times> bool) list
     \<Rightarrow> backend" where
  "serve lc rt st [] = st"
| "serve lc rt st ((now, prov, sec, useCache) # requests) =
     serve lc rt (snd (getNews lc rt now prov st sec useCache)) requests"

section \<open>The refresh scheduler\<close>

text \<open>
  \<^verbatim>\<open>
  async preloadAllSections() {
    if (this.isUpdating) return;
    this.isUpdating = true;
    try {
      const sections = ['world', 'kr', 'japan', 'tech', 'business', 'buzz'];
      for (const section of sections) {
        try { await this.getNews(section, false); } catch (error) { ... }
      }
    } catch (error) { ... } finally { this.isUpdating = false; }
  }
  \<close>
  The service runs on one thread: the code between two \<open>await\<close>s runs without a break.
  The state holds the flag and, for each invocation that has started a cycle and not yet
  returned, the sections it still has to do, the one it is waiting for first. The timers
  of \<open>startBackgroundUpdates\<close> do nothing but call \<open>preloadAllSections\<close>.
\<close>

record scheduler =
  isUpdating :: bool
  cycles :: "jsstring list list"

datatype event =
    Invoke \<comment> \<open>a timer calls \<open>preloadAllSections\<close>\<close>
  | SectionSettled nat \<comment> \<open>in the given cycle the awaited \<open>getNews\<close> returns or throws\<close>
  | Escape nat \<comment> \<open>in the given cycle an exception reaches the outer \<open>catch\<close>\<close>

definition sections :: "jsstring list" where
  "sections = [str ''world'', str ''kr'', str ''japan'', str ''tech'', str ''business'', str ''buzz'']"

definition dropCycle :: "nat \<Rightarrow> jsstring list list \<Rightarrow> jsstring list list" where
  "dropCycle i cs = take i cs @ drop (Suc i) cs"

fun step :: "scheduler \<Rightarrow> event \<Rightarrow> scheduler" where
  "step s Invoke =
     (if isUpdating s then s
      else s\<lparr>isUpdating := True, cycles := cycles s @ [sections]\<rparr>)"
| "step s (SectionSettled i) =
     (if i < length (cycles s) then
        (case tl (cycles s ! i) of
           [] \<Rightarrow> s\<lparr>isUpdating := False, cycles := dropCycle i (cycles s)\<rparr>
         | next_section # rest \<Rightarrow> s\<lparr>cycles := (cycles s)[i := next_section # rest]\<rparr>)
      else s)"
| "step s (Escape i) =
     (if i < length (cycles s) then s\<lparr>isUpdating := False, cycles := dropCycle i (cycles s)\<rparr>
      else s)"

definition idle :: scheduler where
  "idle = \<lparr>isUpdating = False, cycles = []\<rparr>"

definition run :: "event list \<Rightarrow> scheduler" where
  "run events = foldl step idle events"

section \<open>Specification-side notions and concrete runs\<close>

text \<open>The positions \<open>removeDuplicates\<close> is to keep, in input order.\<close>

definition keptPositions :: "(jsstring \<Rightarrow> jsstring) \<Rightarrow> article list \<Rightarrow> nat list" where
  "keptPositions lc xs = filter (firstOfKey lc xs) [0..<length xs]"

text \<open>
  An article of the given title, URL and time value, its other fields as the adapter of
  the BBC feed fills them.
\<close>

definition item :: "string \<Rightarrow> string \<Rightarrow> int option \<Rightarrow> article" where
  "item t u p =
     \<lparr>title = Str (str t), description = Null, url = Str (str u), publishedAt = p,
      source = Str (str ''BBC''), apiSource = Str (str ''RSS''), metrics = None\<rparr>"

text \<open>Three articles whose titles differ in case only, and a fourth of another title.\<close>

definition tripleRun :: "article list" where
  "tripleRun =
     [item ''Rate Cut'' ''https://example.com/a'' (Some 1700000000000),
      item ''RATE CUT'' ''https://example.com/b'' (Some 1700000100000),
      item ''rate cut'' ''https://example.com/c'' (Some 1700000200000)]"

definition storm :: article where
  "storm = item ''Storm Warning'' ''https://example.com/d'' (Some 1700000300000)"

definition mixedRun :: "article list" where
  "mixedRun = tripleRun @ [storm]"

text \<open>An article whose date does not parse, between an older and a newer one.\<close>

definition undatedRun :: "article list" where
  "undatedRun =
     [item ''Older'' ''https://example.com/a'' (Some 1700000000000),
      item ''Undated'' ''https://example.com/b'' None,
      item ''Newer'' ''https://example.com/c'' (Some 1700000360000)]"

text \<open>
  Four articles of which the third is undated: the second is the newest, the fourth lies
  between the first and the second.
\<close>

definition insertedRun :: "article list" where
  "insertedRun =
     [item ''First'' ''https://example.com/a'' (Some 1700000000000),
      item ''Second'' ''https://example.com/b'' (Some 1700000720000),
      item ''Third'' ''https://example.com/c'' None,
      item ''Fourth'' ''https://example.com/d'' (Some 1700000360000)]"

text \<open>
  An undated article that repeats the title of the older one, and is dropped by the
  deduplication.
\<close>

definition shadowedRun :: "article list" where
  "shadowedRun =
     [item ''Older'' ''https://example.com/a'' (Some 1700000000000),
      item ''OLDER'' ''https://example.com/b'' None,
      item ''Newer'' ''https://example.com/c'' (Some 1700000360000)]"

definition datedRun :: "article list" where
  "datedRun =
     [item ''Older'' ''https://example.com/a'' (Some 1700000000000),
      item ''Newer'' ''https://example.com/c'' (Some 1700000360000)]"

text \<open>An article as NewsAPI delivers it when the payload has \<open>title: null\<close>.\<close>

definition untitled :: article where
  "untitled =
     \<lparr>title = Null, description = Str (str ''Markets rally''),
      url = Str (str ''https://example.com/a''), publishedAt = Some 1700000000000,
      source = Str (str ''Reuters''), apiSource = Str (str ''NewsAPI''), metrics = None\<rparr>"

text \<open>
  Providers with every credential set: \<open>quietProviders\<close> answer every request with an
  empty list, \<open>untitledProviders\<close> answer the NewsAPI requests with the article above,
  \<open>busyProviders\<close> answer the NewsAPI requests with two articles and every feed with
  seven copies of one article.
\<close>

definition quietProviders :: providers where
  "quietProviders =
     \<lparr>newsapiKey = True, naverClientId = True, naverClientSecret = True, xBearerToken = True,
      newsapiResponse = (\<lambda>category country. Inr []), naverResponse = Inr [], xResponse = Inr [],
      rssResponse = (\<lambda>src. Inr [])\<rparr>"

definition untitledProviders :: providers where
  "untitledProviders = quietProviders\<lparr>newsapiResponse := (\<lambda>category country. Inr [untitled])\<rparr>"

definition busyProviders :: providers where
  "busyProviders =
     quietProviders\<lparr>newsapiResponse := (\<lambda>category country. Inr datedRun),
                     rssResponse := (\<lambda>src. Inr (replicate 7 storm))\<rparr>"

definition emptyBackend :: backend where
  "emptyBackend = \<lparr>isOpen = True, entries = Map.empty\<rparr>"

text \<open>A backend that holds 21 articles for the section \<open>world\<close>, valid until the given time.\<close>

definition warmBackend :: "int \<Rightarrow> backend" where
  "warmBackend expiry =
     \<lparr>isOpen = True,
      entries = [str ''news:world'' \<mapsto> (expiry, replicate 21 (mockArticle 0))]\<rparr>"

text \<open>The scheduler holds at most one cycle, and the flag is set exactly while it holds one.\<close>

definition oneCycleAtATime :: "scheduler \<Rightarrow> bool" where
  "oneCycleAtATime s = (length (cycles s) \<le> 1 \<and> (isUpdating s = (cycles s \<noteq> [])))"

section \<open>Deduplication\<close>

lemma filter_upt_Suc:
  "filter P [0..<Suc n] = (if P 0 then [0] else []) @ map Suc (filter (\<lambda>i. P (Suc i)) [0..<n])"
proof -
  have "[0..<Suc n] = 0 # map Suc [0..<n]"
    by (simp add: upt_conv_Cons map_Suc_upt del: upt_Suc)
  then show ?thesis
    by (simp add: filter_map comp_def del: upt_Suc)
qed

lemma removeDuplicates_from_positions:
  "\<forall>a\<in>set xs. hasTitle a \<Longrightarrow>
   removeDuplicates_from lc seen xs =
     Inr (map (\<lambda>i. xs ! i)
       (filter (\<lambda>i. articleKey lc (xs ! i) \<notin> seen \<and> firstOfKey lc xs i) [0..<length xs]))"
proof (induction xs arbitrary: seen)
  case Nil
  then show ?case by simp
next
  case (Cons a as)
  from Cons.prems obtain t where t: "title a = Str t"
    by (cases "title a") auto
  have key: "articleKey lc a = dedupKey lc t"
    using t by (simp add: articleKey_def)
  have rest: "\<forall>a\<in>set as. hasTitle a"
    using Cons.prems by simp
  have first: "\<And>i. firstOfKey lc (a # as) (Suc i) =
      (articleKey lc a \<noteq> articleKey lc (as ! i) \<and> firstOfKey lc as i)"
    by (simp add: firstOfKey_def All_less_Suc2)
  have first0: "firstOfKey lc (a # as) 0"
    by (simp add: firstOfKey_def)
  show ?case
  proof (cases "dedupKey lc t \<in> seen")
    case True
    have "filter (\<lambda>i. articleKey lc (as ! i) \<notin> seen
              \<and> articleKey lc a \<noteq> articleKey lc (as ! i) \<and> firstOfKey lc as i) [0..<length as]
        = filter (\<lambda>i. articleKey lc (as ! i) \<notin> seen \<and> firstOfKey lc as i) [0..<length as]"
      using True key by (intro filter_cong) auto
    then show ?thesis
      using True t key Cons.IH [OF rest, of seen]
      by (simp add: filter_upt_Suc first first0 comp_def del: upt_Suc)
  next
    case False
    have "filter (\<lambda>i. articleKey lc (as ! i) \<notin> seen
              \<and> articleKey lc a \<noteq> articleKey lc (as ! i) \<and> firstOfKey lc as i) [0..<length as]
        = filter (\<lambda>i. articleKey lc (as ! i) \<notin> insert (dedupKey lc t) seen
              \<and> firstOfKey lc as i) [0..<length as]"
      using False key by (intro filter_cong) auto
    then show ?thesis
      using False t key Cons.IH [OF rest, of "insert (dedupKey lc t) seen"]
      by (simp add: filter_upt_Suc first first0 comp_def del: upt_Suc)
  qed
qed

lemma keptPositions_one_per_key:
  assumes "i < length xs"
  shows "\<exists>!p. p \<in> set (keptPositions lc xs) \<and> articleKey lc (xs ! p) = articleKey lc (xs ! i)"
proof -
  define Q where "Q = (\<lambda>p. articleKey lc (xs ! p) = articleKey lc (xs ! i))"
  define m where "m = (LEAST p. Q p)"
  have "Q i" by (simp add: Q_def)
  then have Qm: "Q m" and least: "\<And>p. Q p \<Longrightarrow> m \<le> p"
    unfolding m_def by (auto intro: LeastI Least_le)
  have mi: "m \<le> i" using least [OF \<open>Q i\<close>] .
  have "firstOfKey lc xs m"
    unfolding firstOfKey_def
  proof (intro allI impI)
    fix j assume "j < m"
    show "articleKey lc (xs ! j) \<noteq> articleKey lc (xs ! m)"
    proof
      assume "articleKey lc (xs ! j) = articleKey lc (xs ! m)"
      then have "Q j" using Qm by (simp add: Q_def)
      from least [OF this] \<open>j < m\<close> show False by simp
    qed
  qed
  then have ex: "m \<in> set (keptPositions lc xs) \<and> Q m"
    using mi assms Qm by (simp add: keptPositions_def)
  have uniq: "p = m" if "p \<in> set (keptPositions lc xs) \<and> Q p" for p
  proof -
    from that have fp: "firstOfKey lc xs p" and Qp: "Q p"
      by (simp_all add: keptPositions_def)
    have "m \<le> p" using least [OF Qp] .
    moreover have "\<not> m < p"
      using fp Qm Qp by (auto simp: firstOfKey_def Q_def)
    ultimately show ?thesis by simp
  qed
  show ?thesis
    using ex uniq unfolding Q_def by blast
qed

lemma removeDuplicates_from_subset:
  "removeDuplicates_from lc seen xs = Inr ys \<Longrightarrow> set ys \<subseteq> set xs"
proof (induction xs arbitrary: seen ys)
  case Nil
  then show ?case by simp
next
  case (Cons a as)
  then show ?case
    by (fastforce split: jsval.splits if_splits sum.splits simp: Let_def)
qed

lemma removeDuplicates_from_raises:
  "\<exists>a\<in>set xs. \<not> hasTitle a \<Longrightarrow> removeDuplicates_from lc seen xs = Inl TypeError"
  by (induction xs arbitrary: seen) (auto split: jsval.splits simp: Let_def)

lemma mixedRun_kept: "keptPositions asciiLower mixedRun = [0, 3]"
  by (simp add: keptPositions_def firstOfKey_def mixedRun_def tripleRun_def storm_def item_def articleKey_def
      dedupKey_def asciiLower_def str_def upt_conv_Cons All_less_Suc numeral_3_eq_3 numeral_2_eq_2
      del: upt_Suc)

text \<open>
  C1, as the claim states it, fails when three articles share a dedup key: of the pair
  formed by the second and the third, the output holds neither. The run is
  \<open>tripleRun\<close>, whose three titles differ in case only and whose URLs differ.
\<close>

theorem removeDuplicates_pair_counterexample:
  "articleKey asciiLower (tripleRun ! 1) = articleKey asciiLower (tripleRun ! 2)
   \<and> removeDuplicates asciiLower tripleRun = Inr [tripleRun ! 0]
   \<and> tripleRun ! 1 \<notin> set [tripleRun ! 0] \<and> tripleRun ! 2 \<notin> set [tripleRun ! 0]"
  by (simp add: tripleRun_def item_def articleKey_def dedupKey_def asciiLower_def str_def
      removeDuplicates_def)

text \<open>
  C1, amended: when every article of the input has a title, \<open>removeDuplicates\<close> returns
  the articles at the positions that are the first of their dedup key, in input order.
  So of two articles with the same key the later one is dropped, and for every key that
  occurs in the input the output holds exactly one article, the first of that key.
\<close>

theorem removeDuplicates_keeps_first_of_each_key:
  assumes "\<forall>a\<in>set xs. hasTitle a"
  shows "removeDuplicates lc xs = Inr (map (\<lambda>i. xs ! i) (keptPositions lc xs))
    \<and> sorted (keptPositions lc xs) \<and> distinct (keptPositions lc xs)
    \<and> (\<forall>j<length xs. \<forall>i<j. articleKey lc (xs ! i) = articleKey lc (xs ! j) \<longrightarrow>
          j \<notin> set (keptPositions lc xs))
    \<and> (\<forall>i<length xs. \<exists>!p. p \<in> set (keptPositions lc xs)
          \<and> articleKey lc (xs ! p) = articleKey lc (xs ! i))"
proof -
  have "removeDuplicates lc xs = Inr (map (\<lambda>i. xs ! i) (keptPositions lc xs))"
    using removeDuplicates_from_positions [OF assms, of lc "{}"]
    by (simp add: removeDuplicates_def keptPositions_def)
  moreover have "sorted (keptPositions lc xs)" "distinct (keptPositions lc xs)"
    by (simp_all add: keptPositions_def sorted_wrt_filter)
  moreover have "\<forall>j<length xs. \<forall>i<j. articleKey lc (xs ! i) = articleKey lc (xs ! j) \<longrightarrow>
          j \<notin> set (keptPositions lc xs)"
    by (auto simp: keptPositions_def firstOfKey_def)
  ultimately show ?thesis
    using keptPositions_one_per_key by blast
qed

theorem removeDuplicates_keeps_first_of_each_key_witness:
  "list_all hasTitle mixedRun
   \<and> removeDuplicates asciiLower mixedRun = Inr [mixedRun ! 0, mixedRun ! 3]"
proof -
  have h: "\<forall>a\<in>set mixedRun. hasTitle a"
    by (simp add: mixedRun_def tripleRun_def storm_def item_def)
  show ?thesis
    using h removeDuplicates_keeps_first_of_each_key [OF h, of asciiLower]
    by (simp add: mixedRun_kept list_all_iff)
qed

section \<open>Sorting\<close>

lemma set_sortInsert: "set (sortInsert cmp x ys) = insert x (set ys)"
  by (induction ys) auto

lemma mset_sortInsert: "mset (sortInsert cmp x ys) = add_mset x (mset ys)"
  by (induction ys) auto

lemma mset_stableSort: "mset (stableSort cmp xs) = mset xs"
proof -
  have "mset (foldl (\<lambda>prefix x. sortInsert cmp x prefix) acc xs) = mset acc + mset xs" for acc
    by (induction xs arbitrary: acc) (auto simp: mset_sortInsert)
  then show ?thesis by (simp add: stableSort_def)
qed

lemma sortCompare_parsed:
  "parses x \<Longrightarrow> parses y \<Longrightarrow>
   (sortCompare compareByDate y x > 0) = (timestampOrEpoch y < timestampOrEpoch x)"
  by (auto simp: sortCompare_def compareByDate_def timestampOrEpoch_def split: option.splits)

lemma sortInsert_sorted:
  "sorted_wrt (\<lambda>a b. timestampOrEpoch a \<le> timestampOrEpoch b) ys \<Longrightarrow> parses x \<Longrightarrow>
   \<forall>y\<in>set ys. parses y \<Longrightarrow>
   sorted_wrt (\<lambda>a b. timestampOrEpoch a \<le> timestampOrEpoch b) (sortInsert compareByDate x ys)"
proof (induction ys)
  case Nil
  then show ?case by simp
next
  case (Cons y ys)
  have py: "parses y" using Cons.prems(3) by simp
  show ?case
  proof (cases "timestampOrEpoch y < timestampOrEpoch x")
    case True
    then have "sortInsert compareByDate x (y # ys) = y # sortInsert compareByDate x ys"
      using sortCompare_parsed [OF Cons.prems(2) py] by simp
    moreover have "sorted_wrt (\<lambda>a b. timestampOrEpoch a \<le> timestampOrEpoch b)
        (sortInsert compareByDate x ys)"
      using Cons by simp
    ultimately show ?thesis
      using Cons.prems(1) True by (auto simp: set_sortInsert)
  next
    case False
    then have "sortInsert compareByDate x (y # ys) = x # y # ys"
      using sortCompare_parsed [OF Cons.prems(2) py] by simp
    then show ?thesis
      using Cons.prems(1) False by fastforce
  qed
qed

lemma foldl_sortInsert_sorted:
  "sorted_wrt (\<lambda>a b. timestampOrEpoch a \<le> timestampOrEpoch b) acc \<Longrightarrow>
   \<forall>y\<in>set acc. parses y \<Longrightarrow> \<forall>x\<in>set xs. parses x \<Longrightarrow>
   sorted_wrt (\<lambda>a b. timestampOrEpoch a \<le> timestampOrEpoch b)
     (foldl (\<lambda>prefix x. sortInsert compareByDate x prefix) acc xs)"
proof (induction xs arbitrary: acc)
  case Nil
  then show ?case by simp
next
  case (Cons x xs)
  have "sorted_wrt (\<lambda>a b. timestampOrEpoch a \<le> timestampOrEpoch b) (sortInsert compareByDate x acc)"
    using sortInsert_sorted [of acc x] Cons.prems by auto
  then show ?case
    using Cons.IH [of "sortInsert compareByDate x acc"] Cons.prems by (simp add: set_sortInsert)
qed

lemma stableSort_newestFirst:
  "\<forall>x\<in>set xs. parses x \<Longrightarrow> newestFirst (stableSort compareByDate xs)"
  using foldl_sortInsert_sorted [of "[]" xs]
  by (simp add: stableSort_def newestFirst_def sorted_wrt_rev)

lemma sortByDate_parsed:
  "\<forall>x\<in>set xs. parses x \<Longrightarrow> sortByDate rt xs = stableSort compareByDate xs"
  by (simp add: sortByDate_def list_all_iff)

lemma mset_sortByDate_parsed:
  "\<forall>x\<in>set xs. parses x \<Longrightarrow> mset (sortByDate rt xs) = mset xs"
  by (simp add: sortByDate_parsed mset_stableSort)

lemma timestampOrEpoch_enhance: "timestampOrEpoch (enhance lc now sec a) = timestampOrEpoch a"
  by (simp add: timestampOrEpoch_def enhance_def)

lemma newestFirst_enhance: "newestFirst (map (enhance lc now sec) xs) = newestFirst xs"
  by (simp add: newestFirst_def sorted_wrt_map timestampOrEpoch_enhance)

lemma truncate_enhance: "article.truncate (enhance lc now sec a) = a"
  by (simp add: article.truncate_def enhance_def)

lemma undatedRun_unique: "removeDuplicates asciiLower undatedRun = Inr undatedRun"
  by (simp add: undatedRun_def removeDuplicates_def item_def str_def dedupKey_def asciiLower_def)

lemma undatedRun_filter: "filter hasTitleAndUrl undatedRun = undatedRun"
  by (simp add: undatedRun_def hasTitleAndUrl_def item_def str_def)

lemma undatedRun_run: "countAndMakeRun compareByDate undatedRun = (undatedRun, 3)"
  by (simp add: undatedRun_def countAndMakeRun_def sortCompare_def compareByDate_def item_def)

lemma undatedRun_sort: "sortByDate v8SortShort undatedRun = undatedRun"
proof -
  have "\<not> list_all parses undatedRun"
    by (simp add: undatedRun_def item_def)
  moreover have "length undatedRun = 3"
    by (simp add: undatedRun_def)
  ultimately show ?thesis
    by (simp add: sortByDate_def v8SortShort_def undatedRun_run)
qed

text \<open>
  On \<open>insertedRun\<close> V8 finds the descending run of the first two articles and reverses
  it, leaves the undated article in the third place, and puts the fourth article, by two
  comparisons of the binary search, between the second and the first.
\<close>

lemma insertedRun_run:
  "countAndMakeRun compareByDate insertedRun
     = ([insertedRun ! 1, insertedRun ! 0, insertedRun ! 2, insertedRun ! 3], 2)"
  by (simp add: insertedRun_def countAndMakeRun_def sortCompare_def compareByDate_def item_def)

lemma insertedRun_sort:
  "v8SortShort compareByDate insertedRun
     = [insertedRun ! 1, insertedRun ! 3, insertedRun ! 0, insertedRun ! 2]"
proof -
  have "length insertedRun = 4"
    by (simp add: insertedRun_def)
  then show ?thesis
    by (simp add: v8SortShort_def insertedRun_run)
      (simp add: insertedRun_def binarySearch.simps sortCompare_def compareByDate_def item_def)
qed

lemma shadowedRun_unique:
  "removeDuplicates asciiLower shadowedRun = Inr datedRun"
  by (simp add: shadowedRun_def datedRun_def removeDuplicates_def item_def str_def dedupKey_def
      asciiLower_def)

lemma datedRun_filter: "filter hasTitleAndUrl datedRun = datedRun"
  by (simp add: datedRun_def hasTitleAndUrl_def item_def str_def)

lemma datedRun_sort: "stableSort compareByDate datedRun = rev datedRun"
  by (simp add: datedRun_def stableSort_def sortCompare_def compareByDate_def item_def)

text \<open>
  C3, as the claim states it, fails on an article whose date does not parse: the
  comparator returns NaN against it, the sort takes that as "equal", and V8 finds the
  three articles of \<open>undatedRun\<close> (older, undated, newer) to be one ascending run. They
  come out in their input order, the newer one last and the undated one in the middle.
\<close>

theorem processArticles_undated_counterexample:
  "processArticles asciiLower v8SortShort 1700000400000 undatedRun (str ''world'')
     = Inr (map (enhance asciiLower 1700000400000 (str ''world'')) undatedRun)
   \<and> \<not> newestFirst (map (enhance asciiLower 1700000400000 (str ''world'')) undatedRun)"
proof -
  have "\<not> newestFirst undatedRun"
    by (simp add: newestFirst_def undatedRun_def timestampOrEpoch_def item_def)
  then show ?thesis
    by (simp add: processArticles_def undatedRun_unique undatedRun_filter undatedRun_sort
        newestFirst_enhance)
qed

text \<open>
  C3, amended: whenever deduplication returns and the date of every surviving article
  parses (an article survives when deduplication keeps it and it has a title and a
  URL), \<open>processArticles\<close> returns the surviving articles, each once, sorted descending
  by the parsed timestamp. Articles that do not survive need not have a date that
  parses.
\<close>

theorem processArticles_newest_first_when_survivors_parse:
  assumes "removeDuplicates lc articles = Inr uniqueArticles"
    and "\<forall>a\<in>set (filter hasTitleAndUrl uniqueArticles). parses a"
  shows "\<exists>out. processArticles lc rt now articles sec = Inr out
    \<and> newestFirst out
    \<and> mset (map article.truncate out) = mset (filter hasTitleAndUrl uniqueArticles)"
proof -
  let ?survivors = "filter hasTitleAndUrl uniqueArticles"
  let ?out = "map (enhance lc now sec) (sortByDate rt ?survivors)"
  have out: "processArticles lc rt now articles sec = Inr ?out"
    using assms(1) by (simp add: processArticles_def)
  have "sortByDate rt ?survivors = stableSort compareByDate ?survivors"
    using assms(2) by (rule sortByDate_parsed)
  then have nf: "newestFirst ?out"
    using stableSort_newestFirst [OF assms(2)] by (simp add: newestFirst_enhance)
  have t: "map article.truncate ?out = sortByDate rt ?survivors"
    by (simp add: comp_def truncate_enhance)
  have "mset (map article.truncate ?out) = mset ?survivors"
    unfolding t by (rule mset_sortByDate_parsed [OF assms(2)])
  with out nf show ?thesis by blast
qed

theorem processArticles_newest_first_when_survivors_parse_witness:
  "removeDuplicates asciiLower shadowedRun = Inr datedRun
   \<and> list_all parses (filter hasTitleAndUrl datedRun)
   \<and> \<not> list_all parses shadowedRun
   \<and> processArticles asciiLower v8SortShort 1700000400000 shadowedRun (str ''world'')
       = Inr (map (enhance asciiLower 1700000400000 (str ''world'')) (rev datedRun))
   \<and> newestFirst (map (enhance asciiLower 1700000400000 (str ''world'')) (rev datedRun))"
proof -
  have h: "\<forall>a\<in>set (filter hasTitleAndUrl datedRun). parses a"
    by (simp add: datedRun_def item_def)
  have n: "\<not> list_all parses shadowedRun"
    by (simp add: shadowedRun_def item_def)
  have p: "processArticles asciiLower v8SortShort 1700000400000 shadowedRun (str ''world'')
       = Inr (map (enhance asciiLower 1700000400000 (str ''world'')) (rev datedRun))"
    using h by (simp add: processArticles_def shadowedRun_unique sortByDate_parsed datedRun_sort
        datedRun_filter)
  show ?thesis
    using h n p
      processArticles_newest_first_when_survivors_parse [OF shadowedRun_unique h,
        of v8SortShort 1700000400000 "str ''world''"]
    by (auto simp: shadowedRun_unique list_all_iff)
qed

section \<open>Articles without a title\<close>

text \<open>
  C4: \<open>processArticles\<close> is to drop an article that has no title. On the input that
  holds the one article \<open>untitled\<close> (title \<open>null\<close>, URL present) it raises a TypeError
  instead: \<open>removeDuplicates\<close> calls \<open>toLowerCase\<close> on the title before the filter on
  title and URL is reached.
\<close>

theorem processArticles_null_title_raises:
  "processArticles lc rt now [untitled] sec = Inl TypeError"
  by (simp add: processArticles_def removeDuplicates_def untitled_def)

section \<open>Rating\<close>

lemma clamp_tenths: "min 5 (max 1 (real_of_int k / 10)) * 10 \<in> \<int>"
proof -
  have "min 5 (max 1 (real_of_int k / 10)) * 10 = real_of_int (min 50 (max 10 k))"
    by (auto simp: min_def max_def)
  then show ?thesis by simp
qed

text \<open>
  C5: for every article and every \<open>now\<close> the rating lies between 1.0 and 5.0, and ten
  times the rating is an integer.
\<close>

theorem calculateRating_bounds:
  "1 \<le> calculateRating lc now a \<and> calculateRating lc now a \<le> 5
   \<and> calculateRating lc now a * 10 \<in> \<int>"
  by (simp add: calculateRating_def Let_def clamp_tenths)

section \<open>Tags\<close>

lemma uniqueInOrder_from_set: "set (uniqueInOrder_from seen xs) = set xs - seen"
  by (induction xs arbitrary: seen) auto

lemma uniqueInOrder_from_distinct: "distinct (uniqueInOrder_from seen xs)"
  by (induction xs arbitrary: seen) (auto simp: uniqueInOrder_from_set)

lemma firstIndex_Cons:
  "firstIndex (x # xs) y = (if y = x then 0 else Suc (firstIndex xs y))"
  by (simp add: firstIndex_def)

lemma sorted_firstIndex_Cons:
  assumes "sorted_wrt (\<lambda>y z. firstIndex xs y < firstIndex xs z) ys" and "x \<notin> set ys"
  shows "sorted_wrt (\<lambda>y z. firstIndex (x # xs) y < firstIndex (x # xs) z) ys"
  using assms(2) by (intro sorted_wrt_mono_rel [OF _ assms(1)]) (auto simp: firstIndex_Cons)

lemma uniqueInOrder_from_order:
  "sorted_wrt (\<lambda>y z. firstIndex xs y < firstIndex xs z) (uniqueInOrder_from seen xs)"
proof (induction xs arbitrary: seen)
  case Nil
  then show ?case by simp
next
  case (Cons x xs)
  show ?case
  proof (cases "x \<in> seen")
    case True
    then have "x \<notin> set (uniqueInOrder_from seen xs)"
      by (simp add: uniqueInOrder_from_set)
    then show ?thesis
      using True sorted_firstIndex_Cons [OF Cons.IH [of seen]] by simp
  next
    case False
    have notin: "x \<notin> set (uniqueInOrder_from (insert x seen) xs)"
      by (simp add: uniqueInOrder_from_set)
    then have "\<forall>y\<in>set (uniqueInOrder_from (insert x seen) xs).
        firstIndex (x # xs) x < firstIndex (x # xs) y"
      by (auto simp: firstIndex_Cons)
    then show ?thesis
      using False sorted_firstIndex_Cons [OF Cons.IH [of "insert x seen"] notin] by simp
  qed
qed

lemma sorted_wrt_take_part: "sorted_wrt P xs \<Longrightarrow> sorted_wrt P (take n xs)"
  by (metis append_take_drop_id sorted_wrt_append)

text \<open>
  C6: for every article, section and \<open>now\<close>, \<open>generateTags\<close> returns at most 4 tags, no
  tag twice, each of them one of the pushed tags, and in the order in which the tags
  were first pushed.
\<close>

theorem generateTags_capped_distinct_ordered:
  "length (generateTags lc now a sec) \<le> 4
   \<and> distinct (generateTags lc now a sec)
   \<and> set (generateTags lc now a sec) \<subseteq> set (pushedTags lc now a sec)
   \<and> sorted_wrt (\<lambda>x y. firstIndex (pushedTags lc now a sec) x < firstIndex (pushedTags lc now a sec) y)
        (generateTags lc now a sec)"
proof -
  let ?u = "uniqueInOrder (pushedTags lc now a sec)"
  have "distinct ?u"
    by (simp add: uniqueInOrder_def uniqueInOrder_from_distinct)
  moreover have "set (take 4 ?u) \<subseteq> set (pushedTags lc now a sec)"
    using set_take_subset [of 4 ?u] by (auto simp: uniqueInOrder_def uniqueInOrder_from_set)
  moreover have "sorted_wrt (\<lambda>x y. firstIndex (pushedTags lc now a sec) x
      < firstIndex (pushedTags lc now a sec) y) (take 4 ?u)"
    unfolding uniqueInOrder_def by (rule sorted_wrt_take_part [OF uniqueInOrder_from_order])
  ultimately show ?thesis
    by (simp add: generateTags_def)
qed

section \<open>Gathering and the paths of getNews\<close>

lemma own_sections_not_inherited:
  "\<not> inheritedName (str ''world'')" "\<not> inheritedName (str ''kr'')" "\<not> inheritedName (str ''japan'')"
  by (simp_all add: inheritedName_def objectPrototype_def str_def)

lemma rssSources_inherited: "inheritedName sec \<Longrightarrow> rssSources sec = Inherited sec"
  using own_sections_not_inherited by (auto simp: rssSources_def)

lemma rssSources_listed: "\<not> inheritedName sec \<Longrightarrow> rssSources sec = Listed (feedsOf sec)"
  by (simp add: rssSources_def feedsOf_def)

lemma getMockArticles_listed:
  "\<not> inheritedName sec \<Longrightarrow> getMockArticles now sec = Listed [mockArticle now]"
  by (simp add: getMockArticles_def)

lemma getMockArticles_inherited:
  "inheritedName sec \<Longrightarrow> getMockArticles now sec = Inherited sec"
  using own_sections_not_inherited by (auto simp: getMockArticles_def)

lemma fetchRSSArticles_loop_concat:
  "fetchRSSArticles_loop prov articles srcs = articles @ concat (map (feedShare prov) srcs)"
  by (induction srcs arbitrary: articles) (auto simp: feedShare_def split: sum.splits)

lemma gatherArticles_listed:
  "\<not> inheritedName sec \<Longrightarrow>
   gatherArticles prov sec = Inr (fetchSection prov sec @ concat (map (feedShare prov) (feedsOf sec)))"
  by (simp add: gatherArticles_def fetchRSSArticles_def rssSources_listed
      fetchRSSArticles_loop_concat Let_def)

lemma gatherArticles_inherited: "inheritedName sec \<Longrightarrow> gatherArticles prov sec = Inl TypeError"
  by (simp add: gatherArticles_def fetchRSSArticles_def rssSources_inherited)

lemma fetchAndProcess_inherited:
  "inheritedName sec \<Longrightarrow> fetchAndProcess lc rt now prov sec = Inl TypeError"
  by (simp add: fetchAndProcess_def gatherArticles_inherited)

lemma length_feedShare: "length (feedShare prov src) \<le> 5"
  by (simp add: feedShare_def split: sum.splits)

lemma getCachedNews_absent:
  "entries st cacheKey = None \<Longrightarrow> usable (getCachedNews now st cacheKey) = None"
  by (simp add: getCachedNews_def)

lemma processArticles_Nil: "processArticles lc rt now [] sec = Inr []"
  by (simp add: processArticles_def removeDuplicates_def sortByDate_def stableSort_def)

lemma getNews_fresh:
  assumes "useCache \<longrightarrow> usable (getCachedNews now st (str ''news:'' @ sec)) = None"
    and "fetchAndProcess lc rt now prov sec = Inr processed"
  shows "getNews lc rt now prov st sec useCache =
     (\<lparr>success = True, data_section = sec, data_articles = Listed (take 20 processed),
       data_total = Some (length processed), data_cached = False, data_fallback = False,
       data_mock = False\<rparr>,
      if length processed > 0 then cacheNews now st (str ''news:'' @ sec) processed else st)"
  using assms by (simp add: getNews_def Let_def)

lemma getNews_mock:
  assumes "usable (getCachedNews now st (str ''news:'' @ sec)) = None"
    and "fetchAndProcess lc rt now prov sec = Inl e"
  shows "getNews lc rt now prov st sec useCache =
     (\<lparr>success = True, data_section = sec, data_articles = getMockArticles now sec,
       data_total = lengthOf (getMockArticles now sec), data_cached = False,
       data_fallback = True, data_mock = True\<rparr>, st)"
  using assms by (simp add: getNews_def Let_def)

lemma getNews_cached:
  assumes "usable (getCachedNews now st (str ''news:'' @ sec)) = Some stored"
  shows "getNews lc rt now prov st sec True =
     (\<lparr>success = True, data_section = sec, data_articles = Listed (take 20 stored),
       data_total = Some (length stored), data_cached = True, data_fallback = False,
       data_mock = False\<rparr>, st)"
  using assms by (simp add: getNews_def Let_def)

lemma getNews_fallback:
  assumes "usable (getCachedNews now st (str ''news:'' @ sec)) = Some stored"
    and "fetchAndProcess lc rt now prov sec = Inl e"
  shows "getNews lc rt now prov st sec False =
     (\<lparr>success = True, data_section = sec, data_articles = Listed (take 10 stored),
       data_total = Some (length stored), data_cached = True, data_fallback = True,
       data_mock = False\<rparr>, st)"
  using assms by (simp add: getNews_def Let_def)

lemma feedsOf_world: "feedsOf (str ''world'') = [str ''BBC'', str ''Reuters'']"
  by (simp add: feedsOf_def rssSources_def)

lemma quiet_fetch: "fetchSection quietProviders (str ''world'') = []"
  by (simp add: fetchSection_def fetchWorldNews_def fetchFromNewsAPI_def quietProviders_def)

lemma quiet_feeds:
  "map (rssResponse quietProviders) (feedsOf (str ''world'')) = [Inr [], Inr []]"
  by (simp add: feedsOf_world quietProviders_def)

lemma quiet_shares: "map (feedShare quietProviders) (feedsOf (str ''world'')) = [[], []]"
  by (simp add: feedsOf_world feedShare_def quietProviders_def)

lemma quiet_world: "fetchAndProcess lc rt now quietProviders (str ''world'') = Inr []"
  by (simp add: fetchAndProcess_def gatherArticles_listed own_sections_not_inherited quiet_fetch
      quiet_shares processArticles_Nil)

lemma untitled_world:
  "fetchAndProcess lc rt now untitledProviders (str ''world'') = Inl TypeError"
  by (simp add: fetchAndProcess_def gatherArticles_listed own_sections_not_inherited
      fetchSection_def fetchWorldNews_def fetchFromNewsAPI_def untitledProviders_def
      quietProviders_def feedsOf_world feedShare_def processArticles_def removeDuplicates_def
      untitled_def)

lemma length_stableSort: "length (stableSort cmp xs) = length xs"
  using mset_stableSort [of cmp xs] by (metis size_mset)

lemma busy_gather:
  "gatherArticles busyProviders (str ''world'') = Inr (datedRun @ replicate 10 storm)"
  by (simp add: gatherArticles_listed own_sections_not_inherited fetchSection_def
      fetchWorldNews_def fetchFromNewsAPI_def busyProviders_def quietProviders_def feedsOf_world
      feedShare_def replicate_add [symmetric])

lemma busy_unique:
  "removeDuplicates asciiLower (datedRun @ replicate 10 storm) = Inr (datedRun @ [storm])"
  by (simp add: removeDuplicates_def datedRun_def storm_def item_def str_def dedupKey_def asciiLower_def
      numeral_eq_Suc)

lemma busy_filter: "filter hasTitleAndUrl (datedRun @ [storm]) = datedRun @ [storm]"
  by (simp add: datedRun_def storm_def hasTitleAndUrl_def item_def str_def)

lemma busy_parses: "\<forall>a\<in>set (datedRun @ [storm]). parses a"
  by (simp add: datedRun_def storm_def item_def)

lemma busy_process:
  "processArticles asciiLower rt now (datedRun @ replicate 10 storm) (str ''world'')
     = Inr (map (enhance asciiLower now (str ''world'')) (stableSort compareByDate (datedRun @ [storm])))"
  using sortByDate_parsed [OF busy_parses, of rt]
  by (simp add: processArticles_def busy_unique busy_filter del: filter_append)

lemma busy_world:
  "fetchAndProcess asciiLower rt now busyProviders (str ''world'')
     = Inr (map (enhance asciiLower now (str ''world'')) (stableSort compareByDate (datedRun @ [storm])))"
  by (simp add: fetchAndProcess_def busy_gather busy_process)

lemma warm_hit:
  "now < expiry \<Longrightarrow>
   usable (getCachedNews now (warmBackend expiry) (str ''news:'' @ str ''world''))
     = Some (replicate 21 (mockArticle 0))"
  by (simp add: getCachedNews_def warmBackend_def str_def)

lemma getNews_shape:
  "data_mock (fst (getNews lc rt now prov st sec useCache))
   \<or> (\<exists>full. (usable (getCachedNews now st (str ''news:'' @ sec)) = Some full
                 \<or> fetchAndProcess lc rt now prov sec = Inr full)
         \<and> data_total (fst (getNews lc rt now prov st sec useCache)) = Some (length full)
         \<and> data_articles (fst (getNews lc rt now prov st sec useCache))
             = Listed (take (if data_fallback (fst (getNews lc rt now prov st sec useCache))
                             then 10 else 20) full))"
  by (auto simp: getNews_def Let_def split: option.splits sum.splits if_splits)

text \<open>
  The section \<open>constructor\<close>: the lookup of the feeds yields the function \<open>Object\<close>, the
  loop over it raises, and with no cache entry the answer carries that function as its
  articles, with total 1, flagged as mock and fallback.
\<close>

lemma getNews_constructor:
  "getNews lc rt now prov emptyBackend (str ''constructor'') useCache
     = (\<lparr>success = True, data_section = str ''constructor'',
         data_articles = Inherited (str ''constructor''), data_total = Some 1,
         data_cached = False, data_fallback = True, data_mock = True\<rparr>, emptyBackend)"
proof -
  have i: "inheritedName (str ''constructor'')"
    by (simp add: inheritedName_def objectPrototype_def)
  have l: "lengthOf (Inherited (str ''constructor'') :: enhanced list looked_up) = Some 1"
    by (simp add: lengthOf_def objectPrototype_def)
  have "usable (getCachedNews now emptyBackend (str ''news:'' @ str ''constructor'')) = None"
    by (simp add: getCachedNews_def emptyBackend_def)
  from getNews_mock [OF this fetchAndProcess_inherited [OF i]]
  show ?thesis
    by (simp add: getMockArticles_inherited [OF i] l)
qed

text \<open>
  C2, as the claim states it, fails: with every credential set, every provider and feed
  answering with an empty list and no cache entry for the section, \<open>getNews\<close> returns
  the empty article list of a fresh run, and neither \<open>mock\<close> nor \<open>fallback\<close> is set.
\<close>

theorem getNews_all_empty_counterexample:
  "fetchSection quietProviders (str ''world'') = []
   \<and> map (rssResponse quietProviders) (feedsOf (str ''world'')) = [Inr [], Inr []]
   \<and> entries emptyBackend (str ''news:'' @ str ''world'') = None
   \<and> fst (getNews asciiLower v8SortShort 1700000400000 quietProviders emptyBackend (str ''world'') True)
       = \<lparr>success = True, data_section = str ''world'', data_articles = Listed [],
          data_total = Some 0, data_cached = False, data_fallback = False, data_mock = False\<rparr>"
proof -
  have "usable (getCachedNews 1700000400000 emptyBackend (str ''news:'' @ str ''world'')) = None"
    by (simp add: getCachedNews_def emptyBackend_def)
  then have "fst (getNews asciiLower v8SortShort 1700000400000 quietProviders emptyBackend
        (str ''world'') True)
       = \<lparr>success = True, data_section = str ''world'', data_articles = Listed [],
          data_total = Some 0, data_cached = False, data_fallback = False, data_mock = False\<rparr>"
    by (simp add: getNews_fresh [where processed = "[]"] quiet_world)
  then show ?thesis
    by (simp add: quiet_fetch quiet_feeds emptyBackend_def)
qed

text \<open>
  C2, amended: let the cache hold no entry for the section, and let the section not be
  named like a member of \<open>Object.prototype\<close>. When every adapter of the section returns
  an empty sequence without raising, \<open>getNews\<close> returns an empty article list with total
  0, not flagged, and leaves the cache as it is. When fetching or processing raises,
  \<open>getNews\<close> returns the built-in mock list, which is not empty, with \<open>mock\<close> and
  \<open>fallback\<close> set.
\<close>

theorem getNews_mock_only_when_fetch_or_process_raises:
  assumes "entries st (str ''news:'' @ sec) = None"
    and "\<not> inheritedName sec"
  shows "(fetchSection prov sec = [] \<and> (\<forall>src\<in>set (feedsOf sec). rssResponse prov src = Inr [])
          \<longrightarrow> getNews lc rt now prov st sec useCache
              = (\<lparr>success = True, data_section = sec, data_articles = Listed [],
                  data_total = Some 0, data_cached = False, data_fallback = False,
                  data_mock = False\<rparr>, st))
    \<and> (fetchAndProcess lc rt now prov sec = Inl e
          \<longrightarrow> getNews lc rt now prov st sec useCache
              = (\<lparr>success = True, data_section = sec, data_articles = Listed [mockArticle now],
                  data_total = Some 1, data_cached = False, data_fallback = True,
                  data_mock = True\<rparr>, st))"
proof -
  have miss: "usable (getCachedNews now st (str ''news:'' @ sec)) = None"
    using assms(1) by (rule getCachedNews_absent)
  have "fetchAndProcess lc rt now prov sec = Inr []"
    if "fetchSection prov sec = []" "\<forall>src\<in>set (feedsOf sec). rssResponse prov src = Inr []"
  proof -
    have "\<forall>src\<in>set (feedsOf sec). feedShare prov src = []"
      using that(2) by (simp add: feedShare_def)
    then have c: "concat (map (feedShare prov) (feedsOf sec)) = []"
      by simp
    have "gatherArticles prov sec = Inr []"
      by (simp only: gatherArticles_listed [OF assms(2)] that(1) c append_Nil)
    then show ?thesis
      by (simp add: fetchAndProcess_def processArticles_Nil)
  qed
  then have "getNews lc rt now prov st sec useCache
      = (\<lparr>success = True, data_section = sec, data_articles = Listed [],
          data_total = Some 0, data_cached = False, data_fallback = False,
          data_mock = False\<rparr>, st)"
    if "fetchSection prov sec = []" "\<forall>src\<in>set (feedsOf sec). rssResponse prov src = Inr []"
    using that miss getNews_fresh [of useCache now st sec lc rt prov "[]"] by simp
  moreover have "lengthOf (Listed [mockArticle now]) = Some 1"
    by (simp add: lengthOf_def)
  ultimately show ?thesis
    using getNews_mock [OF miss, of lc rt prov e useCache]
    by (simp add: getMockArticles_listed [OF assms(2)])
qed

theorem getNews_mock_only_when_fetch_or_process_raises_witness:
  "entries emptyBackend (str ''news:'' @ str ''world'') = None
   \<and> \<not> inheritedName (str ''world'')
   \<and> fetchSection quietProviders (str ''world'') = []
   \<and> map (rssResponse quietProviders) (feedsOf (str ''world'')) = [Inr [], Inr []]
   \<and> data_articles (fst (getNews asciiLower v8SortShort 1700000400000 quietProviders emptyBackend
        (str ''world'') True)) = Listed []
   \<and> fetchAndProcess asciiLower v8SortShort 1700000400000 untitledProviders (str ''world'')
       = Inl TypeError
   \<and> data_articles (fst (getNews asciiLower v8SortShort 1700000400000 untitledProviders emptyBackend
        (str ''world'') True)) = Listed [mockArticle 1700000400000]
   \<and> data_mock (fst (getNews asciiLower v8SortShort 1700000400000 untitledProviders emptyBackend
        (str ''world'') True))"
proof -
  have h: "entries emptyBackend (str ''news:'' @ str ''world'') = None"
    by (simp add: emptyBackend_def)
  have r: "\<forall>src\<in>set (feedsOf (str ''world'')). rssResponse quietProviders src = Inr []"
    by (simp add: quietProviders_def)
  show ?thesis
    using h r quiet_fetch quiet_feeds own_sections_not_inherited(1)
      untitled_world [of asciiLower v8SortShort 1700000400000]
      getNews_mock_only_when_fetch_or_process_raises [OF h own_sections_not_inherited(1),
        of quietProviders asciiLower v8SortShort 1700000400000 True TypeError]
      getNews_mock_only_when_fetch_or_process_raises [OF h own_sections_not_inherited(1),
        of untitledProviders asciiLower v8SortShort 1700000400000 True TypeError]
    by simp
qed

section \<open>The cache never holds an empty list\<close>

lemma noEmptyEntry_cacheNews:
  "noEmptyEntry st \<Longrightarrow> processed \<noteq> [] \<Longrightarrow> noEmptyEntry (cacheNews now st cacheKey processed)"
  by (auto simp: noEmptyEntry_def cacheNews_def)

lemma getNews_backend:
  "snd (getNews lc rt now prov st sec useCache) = st
   \<or> (\<exists>processed. fetchAndProcess lc rt now prov sec = Inr processed
         \<and> processed \<noteq> []
         \<and> snd (getNews lc rt now prov st sec useCache)
             = cacheNews now st (str ''news:'' @ sec) processed)"
  by (auto simp: getNews_def Let_def split: option.splits sum.splits)

lemma getNews_noEmptyEntry:
  "noEmptyEntry st \<Longrightarrow> noEmptyEntry (snd (getNews lc rt now prov st sec useCache))"
  using getNews_backend [of lc rt now prov st sec useCache] noEmptyEntry_cacheNews by auto

lemma serve_noEmptyEntry:
  "noEmptyEntry st \<Longrightarrow> noEmptyEntry (serve lc rt st requests)"
  by (induction requests arbitrary: st) (auto simp: getNews_noEmptyEntry)

text \<open>
  C7: \<open>getNews\<close> keeps the invariant that no cache entry holds an empty list; it
  changes the cache only by one \<open>cacheNews\<close> of a processed list that is not empty; and
  after any series of requests on a cache that started empty the invariant holds.
\<close>

theorem getNews_never_caches_empty:
  "(noEmptyEntry st \<longrightarrow> noEmptyEntry (snd (getNews lc rt now prov st sec useCache)))
   \<and> (snd (getNews lc rt now prov st sec useCache) \<noteq> st \<longrightarrow>
        (\<exists>articles processed. gatherArticles prov sec = Inr articles
           \<and> processArticles lc rt now articles sec = Inr processed
           \<and> processed \<noteq> []
           \<and> snd (getNews lc rt now prov st sec useCache)
               = cacheNews now st (str ''news:'' @ sec) processed))
   \<and> noEmptyEntry (serve lc rt emptyBackend requests)"
proof -
  have "noEmptyEntry emptyBackend"
    by (simp add: noEmptyEntry_def emptyBackend_def)
  moreover have "\<exists>articles processed. gatherArticles prov sec = Inr articles
           \<and> processArticles lc rt now articles sec = Inr processed
           \<and> processed \<noteq> []
           \<and> snd (getNews lc rt now prov st sec useCache)
               = cacheNews now st (str ''news:'' @ sec) processed"
    if "snd (getNews lc rt now prov st sec useCache) \<noteq> st"
    using that getNews_backend [of lc rt now prov st sec useCache]
    by (auto simp: fetchAndProcess_def split: sum.splits)
  ultimately show ?thesis
    using getNews_noEmptyEntry serve_noEmptyEntry by blast
qed

theorem getNews_never_caches_empty_witness:
  "noEmptyEntry emptyBackend
   \<and> noEmptyEntry (snd (getNews asciiLower v8SortShort 1700000400000 busyProviders emptyBackend
        (str ''world'') True))
   \<and> snd (getNews asciiLower v8SortShort 1700000400000 busyProviders emptyBackend (str ''world'') True)
       \<noteq> emptyBackend
   \<and> snd (getNews asciiLower v8SortShort 1700000400000 quietProviders emptyBackend (str ''world'') True)
       = emptyBackend"
proof -
  have e: "noEmptyEntry emptyBackend"
    by (simp add: noEmptyEntry_def emptyBackend_def)
  have h: "usable (getCachedNews 1700000400000 emptyBackend (str ''news:'' @ str ''world'')) = None"
    by (simp add: getCachedNews_def emptyBackend_def)
  have l: "length (stableSort compareByDate (datedRun @ [storm])) = 3"
    by (simp add: length_stableSort datedRun_def)
  have b: "snd (getNews asciiLower v8SortShort 1700000400000 busyProviders emptyBackend
        (str ''world'') True) \<noteq> emptyBackend"
    using h l getNews_fresh [OF _ busy_world, of True 1700000400000 emptyBackend v8SortShort]
    by (auto simp: cacheNews_def emptyBackend_def dest: arg_cong [where f = entries] fun_cong)
  have q: "snd (getNews asciiLower v8SortShort 1700000400000 quietProviders emptyBackend
        (str ''world'') True) = emptyBackend"
    using h getNews_fresh [of True 1700000400000 emptyBackend "str ''world''" asciiLower
        v8SortShort quietProviders "[]"]
    by (simp add: quiet_world)
  show ?thesis
    using e b q
      getNews_never_caches_empty [of emptyBackend asciiLower v8SortShort 1700000400000
        busyProviders "str ''world''" True]
    by simp
qed

section \<open>RSS articles come last, five per feed at most\<close>

text \<open>
  C9: whenever \<open>getNews\<close> hands a sequence to \<open>processArticles\<close>, the sequence is the
  articles of the section's API adapters followed by the shares of the section's feeds
  in the order of the feeds; a share is the first five articles of what the feed
  returned, or nothing when the feed failed; and a run that does not answer from the
  cache returns what \<open>processArticles\<close> makes of that sequence. A sequence is handed over
  for every section but those named like a member of \<open>Object.prototype\<close>, for which the
  loop over the feeds raises.
\<close>

theorem gatherArticles_rss_appended_capped:
  "(gatherArticles prov sec = Inr combined \<longrightarrow>
      combined = fetchSection prov sec @ concat (map (feedShare prov) (feedsOf sec)))
   \<and> (\<not> inheritedName sec \<longrightarrow> (\<exists>handed. gatherArticles prov sec = Inr handed))
   \<and> (inheritedName sec \<longrightarrow> gatherArticles prov sec = Inl TypeError)
   \<and> (\<forall>src. length (feedShare prov src) \<le> 5
         \<and> (case rssResponse prov src of Inl e \<Rightarrow> feedShare prov src = []
             | Inr items \<Rightarrow> feedShare prov src = take 5 items))
   \<and> ((useCache \<longrightarrow> usable (getCachedNews now st (str ''news:'' @ sec)) = None)
        \<and> gatherArticles prov sec = Inr combined
        \<and> processArticles lc rt now combined sec = Inr processed
        \<longrightarrow> fst (getNews lc rt now prov st sec useCache)
            = \<lparr>success = True, data_section = sec, data_articles = Listed (take 20 processed),
               data_total = Some (length processed), data_cached = False, data_fallback = False,
               data_mock = False\<rparr>)"
proof -
  have shares: "length (feedShare prov src) \<le> 5
         \<and> (case rssResponse prov src of Inl e \<Rightarrow> feedShare prov src = []
             | Inr items \<Rightarrow> feedShare prov src = take 5 items)" for src
    by (simp add: feedShare_def split: sum.splits)
  have handed: "combined = fetchSection prov sec @ concat (map (feedShare prov) (feedsOf sec))"
    if "gatherArticles prov sec = Inr combined"
    using that gatherArticles_listed [of sec prov] gatherArticles_inherited [of sec prov]
    by (cases "inheritedName sec") simp_all
  have fresh: "fst (getNews lc rt now prov st sec useCache)
            = \<lparr>success = True, data_section = sec, data_articles = Listed (take 20 processed),
               data_total = Some (length processed), data_cached = False, data_fallback = False,
               data_mock = False\<rparr>"
    if "useCache \<longrightarrow> usable (getCachedNews now st (str ''news:'' @ sec)) = None"
      "gatherArticles prov sec = Inr combined"
      "processArticles lc rt now combined sec = Inr processed"
  proof -
    have "fetchAndProcess lc rt now prov sec = Inr processed"
      using that(2,3) by (simp add: fetchAndProcess_def)
    from getNews_fresh [OF that(1) this] show ?thesis by simp
  qed
  show ?thesis
    using shares handed fresh gatherArticles_listed [of sec prov]
      gatherArticles_inherited [of sec prov]
    by blast
qed

theorem gatherArticles_rss_appended_capped_witness:
  "usable (getCachedNews 1700000400000 emptyBackend (str ''news:'' @ str ''world'')) = None
   \<and> fetchSection busyProviders (str ''world'') = datedRun
   \<and> map (feedShare busyProviders) (feedsOf (str ''world'')) = [replicate 5 storm, replicate 5 storm]
   \<and> gatherArticles busyProviders (str ''world'') = Inr (datedRun @ replicate 10 storm)
   \<and> data_total (fst (getNews asciiLower v8SortShort 1700000400000 busyProviders emptyBackend
        (str ''world'') False)) = Some 3"
proof -
  have h: "usable (getCachedNews 1700000400000 emptyBackend (str ''news:'' @ str ''world'')) = None"
    by (simp add: getCachedNews_def emptyBackend_def)
  have f: "fetchSection busyProviders (str ''world'') = datedRun"
    by (simp add: fetchSection_def fetchWorldNews_def fetchFromNewsAPI_def busyProviders_def
        quietProviders_def)
  have g: "map (feedShare busyProviders) (feedsOf (str ''world'')) = [replicate 5 storm, replicate 5 storm]"
    by (simp add: feedsOf_world feedShare_def busyProviders_def quietProviders_def)
  have l: "length (stableSort compareByDate (datedRun @ [storm])) = 3"
    by (simp add: length_stableSort datedRun_def)
  have r: "fst (getNews asciiLower v8SortShort 1700000400000 busyProviders emptyBackend
        (str ''world'') False)
      = \<lparr>success = True, data_section = str ''world'',
         data_articles = Listed (take 20 (map (enhance asciiLower 1700000400000 (str ''world''))
              (stableSort compareByDate (datedRun @ [storm])))),
         data_total = Some (length (map (enhance asciiLower 1700000400000 (str ''world''))
              (stableSort compareByDate (datedRun @ [storm])))),
         data_cached = False, data_fallback = False, data_mock = False\<rparr>"
    using busy_gather busy_process [of v8SortShort 1700000400000]
      gatherArticles_rss_appended_capped [of busyProviders "str ''world''"
        "datedRun @ replicate 10 storm" False 1700000400000 emptyBackend asciiLower v8SortShort
        "map (enhance asciiLower 1700000400000 (str ''world''))
           (stableSort compareByDate (datedRun @ [storm]))"]
    by blast
  show ?thesis
    using h f g l by (simp add: r busy_gather)
qed

section \<open>Truncation of the response\<close>

text \<open>
  C10: a response that is not the mock response carries a list, the first 20 articles of
  the full list (the first 10 on the fallback to the cache after an error), and \<open>total\<close>
  is the length of the full list, which is the cached list or the processed list; there
  are runs in which \<open>total\<close> exceeds the number of articles returned.
\<close>

theorem getNews_truncates_and_reports_full_count:
  "(\<not> data_mock (fst (getNews lc rt now prov st sec useCache)) \<longrightarrow>
      (\<exists>shown full.
          data_articles (fst (getNews lc rt now prov st sec useCache)) = Listed shown
        \<and> length shown \<le> 20
        \<and> (data_fallback (fst (getNews lc rt now prov st sec useCache)) \<longrightarrow> length shown \<le> 10)
        \<and> (usable (getCachedNews now st (str ''news:'' @ sec)) = Some full
             \<or> fetchAndProcess lc rt now prov sec = Inr full)
        \<and> data_total (fst (getNews lc rt now prov st sec useCache)) = Some (length full)
        \<and> shown = take (if data_fallback (fst (getNews lc rt now prov st sec useCache))
                         then 10 else 20) full))
   \<and> (\<exists>st' shown total.
          \<not> data_mock (fst (getNews lc rt now prov st' sec' True))
        \<and> data_articles (fst (getNews lc rt now prov st' sec' True)) = Listed shown
        \<and> data_total (fst (getNews lc rt now prov st' sec' True)) = Some total
        \<and> length shown < total)"
proof (intro conjI impI)
  define r where "r = fst (getNews lc rt now prov st sec useCache)"
  assume "\<not> data_mock (fst (getNews lc rt now prov st sec useCache))"
  then have "\<not> data_mock r" by (simp add: r_def)
  with getNews_shape [of lc rt now prov st sec useCache]
  obtain full where full:
    "usable (getCachedNews now st (str ''news:'' @ sec)) = Some full
       \<or> fetchAndProcess lc rt now prov sec = Inr full"
    "data_total r = Some (length full)"
    "data_articles r = Listed (take (if data_fallback r then 10 else 20) full)"
    unfolding r_def by blast
  define shown where "shown = take (if data_fallback r then 10 else 20) full"
  have "length shown \<le> 20" "data_fallback r \<longrightarrow> length shown \<le> 10"
    by (cases "data_fallback r"; simp add: shown_def)+
  then have "data_articles r = Listed shown
        \<and> length shown \<le> 20
        \<and> (data_fallback r \<longrightarrow> length shown \<le> 10)
        \<and> (usable (getCachedNews now st (str ''news:'' @ sec)) = Some full
             \<or> fetchAndProcess lc rt now prov sec = Inr full)
        \<and> data_total r = Some (length full)
        \<and> shown = take (if data_fallback r then 10 else 20) full"
    using full by (simp add: shown_def)
  then show "\<exists>shown full.
          data_articles (fst (getNews lc rt now prov st sec useCache)) = Listed shown
        \<and> length shown \<le> 20
        \<and> (data_fallback (fst (getNews lc rt now prov st sec useCache)) \<longrightarrow> length shown \<le> 10)
        \<and> (usable (getCachedNews now st (str ''news:'' @ sec)) = Some full
             \<or> fetchAndProcess lc rt now prov sec = Inr full)
        \<and> data_total (fst (getNews lc rt now prov st sec useCache)) = Some (length full)
        \<and> shown = take (if data_fallback (fst (getNews lc rt now prov st sec useCache))
                         then 10 else 20) full"
    unfolding r_def [symmetric] by blast
next
  define x where "x = mockArticle now"
  define st' where
    "st' = \<lparr>isOpen = True, entries = [str ''news:'' @ sec' \<mapsto> (now + 1, replicate 21 x)]\<rparr>"
  have "getCachedNews now st' (str ''news:'' @ sec') = Some (replicate 21 x)"
    by (simp add: getCachedNews_def st'_def)
  then have "usable (getCachedNews now st' (str ''news:'' @ sec')) = Some (replicate 21 x)"
    by simp
  from getNews_cached [OF this, of lc rt prov]
  have "\<not> data_mock (fst (getNews lc rt now prov st' sec' True))
        \<and> data_articles (fst (getNews lc rt now prov st' sec' True)) = Listed (replicate 20 x)
        \<and> data_total (fst (getNews lc rt now prov st' sec' True)) = Some 21
        \<and> length (replicate 20 x) < 21"
    by simp
  then show "\<exists>st' shown total.
          \<not> data_mock (fst (getNews lc rt now prov st' sec' True))
        \<and> data_articles (fst (getNews lc rt now prov st' sec' True)) = Listed shown
        \<and> data_total (fst (getNews lc rt now prov st' sec' True)) = Some total
        \<and> length shown < total"
    by blast
qed

theorem getNews_truncates_and_reports_full_count_witness:
  "\<not> data_mock (fst (getNews asciiLower v8SortShort 0 quietProviders (warmBackend 1) (str ''world'') True))
   \<and> data_articles (fst (getNews asciiLower v8SortShort 0 quietProviders (warmBackend 1) (str ''world'') True))
       = Listed (replicate 20 (mockArticle 0))
   \<and> data_total (fst (getNews asciiLower v8SortShort 0 quietProviders (warmBackend 1) (str ''world'') True))
       = Some 21
   \<and> data_fallback (fst (getNews asciiLower v8SortShort 0 untitledProviders (warmBackend 1) (str ''world'') False))
   \<and> \<not> data_mock (fst (getNews asciiLower v8SortShort 0 untitledProviders (warmBackend 1) (str ''world'') False))
   \<and> data_articles (fst (getNews asciiLower v8SortShort 0 untitledProviders (warmBackend 1) (str ''world'') False))
       = Listed (replicate 10 (mockArticle 0))
   \<and> data_total (fst (getNews asciiLower v8SortShort 0 untitledProviders (warmBackend 1) (str ''world'') False))
       = Some 21"
proof -
  have hit: "usable (getCachedNews 0 (warmBackend 1) (str ''news:'' @ str ''world''))
     = Some (replicate 21 (mockArticle 0))"
    by (rule warm_hit) simp
  have c: "fst (getNews asciiLower v8SortShort 0 quietProviders (warmBackend 1) (str ''world'') True)
     = \<lparr>success = True, data_section = str ''world'',
        data_articles = Listed (take 20 (replicate 21 (mockArticle 0))),
        data_total = Some (length (replicate 21 (mockArticle 0))),
        data_cached = True, data_fallback = False, data_mock = False\<rparr>"
    by (simp add: getNews_cached [OF hit])
  have f: "fst (getNews asciiLower v8SortShort 0 untitledProviders (warmBackend 1) (str ''world'') False)
     = \<lparr>success = True, data_section = str ''world'',
        data_articles = Listed (take 10 (replicate 21 (mockArticle 0))),
        data_total = Some (length (replicate 21 (mockArticle 0))),
        data_cached = True, data_fallback = True, data_mock = False\<rparr>"
    by (simp add: getNews_fallback [OF hit untitled_world])
  show ?thesis
    using getNews_truncates_and_reports_full_count
      [of asciiLower v8SortShort 0 quietProviders "warmBackend 1" "str ''world''" True "str ''world''"]
      getNews_truncates_and_reports_full_count
      [of asciiLower v8SortShort 0 untitledProviders "warmBackend 1" "str ''world''" False "str ''world''"]
    by (simp add: c f)
qed

section \<open>One refresh cycle at a time\<close>

lemma cycles_single: "length cs \<le> 1 \<Longrightarrow> i < length cs \<Longrightarrow> dropCycle i cs = [] \<and> i = 0"
  by (cases cs) (auto simp: dropCycle_def)

lemma step_oneCycleAtATime: "oneCycleAtATime s \<Longrightarrow> oneCycleAtATime (step s e)"
proof (cases e)
  case Invoke
  assume "oneCycleAtATime s"
  then show ?thesis using Invoke by (auto simp: oneCycleAtATime_def)
next
  case (SectionSettled i)
  assume "oneCycleAtATime s"
  then show ?thesis
    using SectionSettled cycles_single [of "cycles s" i]
    by (auto simp: oneCycleAtATime_def split: list.splits)
next
  case (Escape i)
  assume "oneCycleAtATime s"
  then show ?thesis
    using Escape cycles_single [of "cycles s" i]
    by (auto simp: oneCycleAtATime_def)
qed

lemma foldl_step_oneCycleAtATime:
  "oneCycleAtATime s \<Longrightarrow> oneCycleAtATime (foldl step s events)"
  by (induction events arbitrary: s) (auto simp: step_oneCycleAtATime)

lemma run_oneCycleAtATime: "oneCycleAtATime (run events)"
  unfolding run_def by (rule foldl_step_oneCycleAtATime) (simp add: oneCycleAtATime_def idle_def)

text \<open>
  C8: after any series of events the scheduler holds at most one cycle, and the flag is set
  exactly while it holds one; an invocation that finds the flag set changes nothing; and
  when the running cycle ends, by an exception that reaches the outer handler or after
  its last section, the scheduler is idle again with the flag cleared.
\<close>

theorem preloadAllSections_one_cycle_at_a_time:
  "length (cycles (run events)) \<le> 1
   \<and> (isUpdating (run events) = (cycles (run events) \<noteq> []))
   \<and> (isUpdating s \<longrightarrow> step s Invoke = s)
   \<and> (i < length (cycles (run events)) \<longrightarrow>
        step (run events) (Escape i) = idle
        \<and> (tl (cycles (run events) ! i) = [] \<longrightarrow> step (run events) (SectionSettled i) = idle))"
proof -
  have inv: "oneCycleAtATime (run events)"
    by (rule run_oneCycleAtATime)
  have "step (run events) (Escape i) = idle
        \<and> (tl (cycles (run events) ! i) = [] \<longrightarrow> step (run events) (SectionSettled i) = idle)"
    if "i < length (cycles (run events))"
    using that inv cycles_single [of "cycles (run events)" i]
    by (auto simp: oneCycleAtATime_def idle_def)
  then show ?thesis
    using inv by (simp add: oneCycleAtATime_def)
qed

lemma run_examples:
  "run [Invoke] = \<lparr>isUpdating = True, cycles = [sections]\<rparr>"
  "run [Invoke, SectionSettled 0, Invoke] = \<lparr>isUpdating = True, cycles = [tl sections]\<rparr>"
  "run (Invoke # replicate 5 (SectionSettled 0)) = \<lparr>isUpdating = True, cycles = [[str ''buzz'']]\<rparr>"
  by (simp_all add: run_def idle_def sections_def numeral_eq_Suc)

theorem preloadAllSections_one_cycle_at_a_time_witness:
  "isUpdating (run [Invoke, SectionSettled 0])
   \<and> step (run [Invoke, SectionSettled 0]) Invoke = run [Invoke, SectionSettled 0]
   \<and> cycles (run [Invoke, SectionSettled 0, Invoke]) = [tl sections]
   \<and> 0 < length (cycles (run [Invoke]))
   \<and> step (run [Invoke]) (Escape 0) = idle
   \<and> tl (cycles (run (Invoke # replicate 5 (SectionSettled 0))) ! 0) = []
   \<and> step (run (Invoke # replicate 5 (SectionSettled 0))) (SectionSettled 0) = idle"
proof -
  have a: "isUpdating (run [Invoke, SectionSettled 0])"
    by (simp add: run_def idle_def sections_def)
  have b: "0 < length (cycles (run [Invoke]))"
    by (simp add: run_examples)
  have c: "0 < length (cycles (run (Invoke # replicate 5 (SectionSettled 0))))"
    "tl (cycles (run (Invoke # replicate 5 (SectionSettled 0))) ! 0) = []"
    by (simp_all add: run_examples)
  show ?thesis
    using a b c
      preloadAllSections_one_cycle_at_a_time [of "[Invoke, SectionSettled 0]" "run [Invoke, SectionSettled 0]" 0]
      preloadAllSections_one_cycle_at_a_time [of "[Invoke]" idle 0]
      preloadAllSections_one_cycle_at_a_time [of "Invoke # replicate 5 (SectionSettled 0)" idle 0]
    by (simp add: run_examples)
qed


end
